theory Spec2Isabelle
  imports Main "HOL-Library.Word"
begin

section \<open>The batch-job reconciler of pkg/operator/resources/job/batchapi/cron.go\<close>

text \<open>
  A shallow embedding of \<^verbatim>\<open>ManageJobResources\<close>, \<^verbatim>\<open>reconcileInProgressJob\<close>,
  \<^verbatim>\<open>checkIfJobCompleted\<close> and \<^verbatim>\<open>investigateJobFailure\<close>.

  The Go code talks to a state store, a queue service, an orchestrator, a metrics backend
  and a log stream. What those systems answer is a parameter of the model (the record
  \<open>env\<close>); what the code does to them is recorded, call by call and in program order, in
  the \<open>trace\<close> of the \<open>world\<close>, next to the two package-level variables
  \<^verbatim>\<open>_jobsToDelete\<close> and \<^verbatim>\<open>_inProgressJobSpecMap\<close>. A nil-pointer dereference is the
  outcome \<open>Panics\<close>.
\<close>

subsection \<open>Time (Go's package time)\<close>

text \<open>
  An instant is a number of nanoseconds since the Unix epoch, a \<^verbatim>\<open>time.Duration\<close> a number
  of nanoseconds held in an int64. \<^verbatim>\<open>t.Sub(u)\<close> saturates: the library returns the largest
  (smallest) duration when the difference does not fit. \<^verbatim>\<open>time.Time{}\<close> is January 1 of
  year 1, 00:00 UTC, that is 62135596800 seconds before the epoch.
\<close>

type_synonym Time = int
type_synonym Duration = int

definition time_Second :: Duration where
  "time_Second = 1000000000"

definition maxDuration :: Duration where
  "maxDuration = 2 ^ 63 - 1"

definition minDuration :: Duration where
  "minDuration = - (2 ^ 63)"

definition time_Sub :: "Time \<Rightarrow> Time \<Rightarrow> Duration" where
  "time_Sub t u = (if t - u > maxDuration then maxDuration
                   else if t - u < minDuration then minDuration else t - u)"

definition zeroTime :: Time where
  "zeroTime = - 62135596800 * 1000000000"

text \<open>
  \<^verbatim>\<open>time.Unix(sec, 0)\<close> keeps the seconds since the year 1 in an int64: the sum
  \<^verbatim>\<open>sec + 62135596800\<close> wraps around for an argument within 62135596800 of the largest
  int64, and the instant is the wrapped one.
\<close>

definition time_Unix :: "int \<Rightarrow> Time" where
  "time_Unix sec = (sint (word_of_int (sec + 62135596800) :: 64 word) - 62135596800) * 1000000000"

text \<open>The product of two int64 durations wraps around.\<close>

definition Duration_mul :: "Duration \<Rightarrow> Duration \<Rightarrow> Duration" where
  "Duration_mul a b = sint (word_of_int (a * b) :: 64 word)"

subsection \<open>The constants of cron.go\<close>

definition doesQueueExistGracePeriod :: Duration where
  "doesQueueExistGracePeriod = 30 * time_Second"

definition enqueuingLivenessBuffer :: Duration where
  "enqueuingLivenessBuffer = 30 * time_Second"

definition k8sJobExistenceGracePeriod :: Duration where
  "k8sJobExistenceGracePeriod = 10 * time_Second"

subsection \<open>Data\<close>

type_synonym error = string

text \<open>
  Modelled from the spec: \<^verbatim>\<open>spec.JobKey\<close> is declared outside cron.go. Section 3 gives it
  the attributes \<^verbatim>\<open>APIName\<close> and \<^verbatim>\<open>ID\<close>.
\<close>

record JobKey =
  APIName :: string
  ID :: string

text \<open>
  Modelled from the spec: package \<^verbatim>\<open>status\<close> (the type \<^verbatim>\<open>JobCode\<close> and \<^verbatim>\<open>IsInProgress\<close>) is
  not among the source files. Section 4.2 of the spec lists the nine states and says that
  the first two are the non-terminal ones.
\<close>

datatype JobCode =
    JobEnqueuing
  | JobRunning
  | JobSucceeded
  | JobCompletedWithFailures
  | JobTimedOut
  | JobEnqueueFailed
  | JobWorkerOOM
  | JobWorkerError
  | JobUnexpectedError

fun IsInProgress :: "JobCode \<Rightarrow> bool" where
  "IsInProgress JobEnqueuing = True"
| "IsInProgress JobRunning = True"
| "IsInProgress _ = False"

text \<open>
  Modelled from the spec: \<^verbatim>\<open>job.State\<close> is declared outside cron.go. Section 3 gives it
  the job key, the status and \<^verbatim>\<open>LastUpdatedMap\<close>, from the name of a status or phase to
  a time. A missing key of a Go map of times reads as the zero time.
\<close>

record State =
  State_JobKey :: JobKey
  Status :: JobCode
  LastUpdatedMap :: "string \<rightharpoonup> Time"

definition lastUpdated :: "State \<Rightarrow> string \<Rightarrow> Time" where
  "lastUpdated jobState name = (case LastUpdatedMap jobState name of None \<Rightarrow> zeroTime | Some t \<Rightarrow> t)"

text \<open>
  \<^verbatim>\<open>kbatch.Job\<close> of the Kubernetes API: its labels and the three int32 counters of its
  status.
\<close>

record JobStatus =
  Active :: "32 word"
  Succeeded :: "32 word"
  Failed :: "32 word"

record Job =
  Labels :: "string \<rightharpoonup> string"
  Job_Status :: JobStatus

text \<open>Reading a Go map of strings at a missing key gives the empty string.\<close>

definition mapGet :: "(string \<rightharpoonup> string) \<Rightarrow> string \<Rightarrow> string" where
  "mapGet m key = (case m key of None \<Rightarrow> [] | Some v \<Rightarrow> v)"

text \<open>
  Modelled from the spec: \<^verbatim>\<open>spec.BatchJob\<close> and the two metrics types are declared outside
  cron.go. Section 3 gives the job's spec the workers, the total batch count, the optional
  timeout in seconds and the start time; section 6 gives the queue metrics \<^verbatim>\<open>IsEmpty()\<close>
  and the batch metrics the count \<^verbatim>\<open>Succeeded\<close>. \<^verbatim>\<open>Workers\<close>, \<^verbatim>\<open>TotalBatchCount\<close> and
  \<^verbatim>\<open>Succeeded\<close> are Go ints that the code only compares.
\<close>

record BatchJob =
  Workers :: int
  TotalBatchCount :: int
  Timeout :: "int option"
  StartTime :: Time

record BatchMetrics =
  Metrics_Succeeded :: int

record QueueMetrics =
  IsEmpty :: bool

text \<open>
  The pods of the Kubernetes API, as far as \<^verbatim>\<open>investigateJobFailure\<close> reads them: for each
  container the current and the last termination state, nil (\<open>None\<close>) or an exit code and
  a reason.
\<close>

record ContainerStateTerminated =
  ExitCode :: "32 word"
  Reason :: string

record ContainerStatus =
  State_Terminated :: "ContainerStateTerminated option"
  LastTerminationState_Terminated :: "ContainerStateTerminated option"

record Pod =
  Pod_Name :: string
  ContainerStatuses :: "ContainerStatus list"

subsection \<open>Sets of strings\<close>

text \<open>
  Modelled from the spec: package \<^verbatim>\<open>strset\<close> is not among the source files. A set of job
  identifiers with the operations section 4.1 of the spec uses: membership, insertion,
  removal and difference. The set is held as a list without repetitions.
\<close>

type_synonym strset = "string list"

definition strset_Has :: "strset \<Rightarrow> string \<Rightarrow> bool" where
  "strset_Has s x = (x \<in> set s)"

definition strset_Add :: "strset \<Rightarrow> string \<Rightarrow> strset" where
  "strset_Add s x = (if x \<in> set s then s else s @ [x])"

definition strset_Remove :: "strset \<Rightarrow> string \<Rightarrow> strset" where
  "strset_Remove s x = removeAll x s"

definition strset_Difference :: "strset \<Rightarrow> strset list \<Rightarrow> strset" where
  "strset_Difference s others = filter (\<lambda>x. \<not> list_ex (\<lambda>t. strset_Has t x) others) s"

subsection \<open>The external systems\<close>

text \<open>
  What the collaborators answer within one pass. A read is a function of its arguments; a
  write answers nil (\<open>None\<close>) or an error. \<open>ext_now\<close> is the reading of the clock: a pass is
  short against the grace periods, and no comparison of the code involves two readings.
  \<open>ext_rangeRank\<close> fixes the order in which \<^verbatim>\<open>range\<close> visits the members of a set, which Go
  leaves open. \<open>ext_ToLower_unicode\<close> is what \<^verbatim>\<open>strings.ToLower\<close> answers for a string that
  has a byte outside ASCII.
\<close>

record env =
  ext_now :: Time
  ext_ListAllInProgressJobKeys :: "error + JobKey list"
  ext_GetJobState :: "JobKey \<Rightarrow> error + State"
  ext_SetStatusForJob :: "JobKey \<Rightarrow> JobCode \<Rightarrow> error option"
  ext_DeleteInProgressFile :: "JobKey \<Rightarrow> error option"
  ext_deleteJobRuntimeResources :: "JobKey \<Rightarrow> error option"
  ext_writeToJobLogStream :: "JobKey \<Rightarrow> string list \<Rightarrow> error option"
  ext_downloadJobSpec :: "JobKey \<Rightarrow> error + BatchJob"
  ext_listQueueURLsForAllAPIs :: "error + string list"
  ext_jobKeyFromQueueURL :: "string \<Rightarrow> JobKey"
  ext_getJobQueueURL :: "JobKey \<Rightarrow> error + string"
  ext_GetAllQueueAttributes :: "string \<Rightarrow> (string \<rightharpoonup> string) \<times> error option"
  ext_getQueueMetricsFromURL :: "string \<Rightarrow> error + QueueMetrics"
  ext_getRealTimeBatchMetrics :: "JobKey \<Rightarrow> error + BatchMetrics"
  ext_ListJobs :: "error + Job list"
  ext_ListPodsByLabel :: "string \<Rightarrow> string \<Rightarrow> Pod list"
  ext_WasPodOOMKilled :: "Pod \<Rightarrow> bool"
  ext_GetPodStatus :: "Pod \<Rightarrow> string"
  ext_ParseInt64 :: "string \<Rightarrow> int option"
  ext_UserString :: "JobKey \<Rightarrow> string"
  ext_JobCode_String :: "JobCode \<Rightarrow> string"
  ext_LivenessFile :: string
  ext_enqueuingLivenessPeriod :: Duration
  ext_rangeRank :: "string \<Rightarrow> nat"
  ext_ToLower_unicode :: "string \<Rightarrow> string"

subsection \<open>The state of the reconciler and its effects\<close>

text \<open>
  An event is a call that changes a collaborator: \<^verbatim>\<open>writeToJobLogStream\<close> with its
  messages, a setter of the state store with the status it sets,
  \<^verbatim>\<open>job.DeleteInProgressFile\<close>, \<^verbatim>\<open>deleteJobRuntimeResources\<close>, and the report of an error
  to telemetry and to the operator's output. The trace holds the calls whether they succeed
  or not; what a call answers is in \<open>env\<close>.
\<close>

datatype event =
    LogWrite JobKey "string list"
  | StatusWrite JobKey JobCode
  | InProgressFileDelete JobKey
  | RuntimeDelete JobKey
  | ErrorReport error

record world =
  jobsToDelete :: strset
  inProgressJobSpecMap :: "string \<rightharpoonup> BatchJob"
  trace :: "event list"

datatype 'a outcome = Panics | Returns 'a

definition emit :: "event \<Rightarrow> world \<Rightarrow> world" where
  "emit e w = w\<lparr>trace := trace w @ [e]\<rparr>"

definition writeToJobLogStream :: "env \<Rightarrow> JobKey \<Rightarrow> string list \<Rightarrow> world \<Rightarrow> error option \<times> world" where
  "writeToJobLogStream env jobKey msgs w =
     (ext_writeToJobLogStream env jobKey msgs, emit (LogWrite jobKey msgs) w)"

text \<open>
  Modelled from the spec: the state store's setters are declared outside cron.go. Section 6
  lists \<^verbatim>\<open>SetStatusForJob(JobKey, status)\<close> and one setter for each terminal status
  (\<^verbatim>\<open>SetSucceededStatus\<close>, \<^verbatim>\<open>SetCompletedWithFailuresStatus\<close>, \<^verbatim>\<open>SetTimedOutStatus\<close>,
  \<^verbatim>\<open>SetUnexpectedErrorStatus\<close>, \<^verbatim>\<open>SetWorkerOOMStatus\<close>, \<^verbatim>\<open>SetWorkerErrorStatus\<close>), each
  of which writes that status; \<open>SetStatusForJob\<close> with the status stands for all of them.
\<close>

definition SetStatusForJob :: "env \<Rightarrow> JobKey \<Rightarrow> JobCode \<Rightarrow> world \<Rightarrow> error option \<times> world" where
  "SetStatusForJob env jobKey code w =
     (ext_SetStatusForJob env jobKey code, emit (StatusWrite jobKey code) w)"

definition DeleteInProgressFile :: "env \<Rightarrow> JobKey \<Rightarrow> world \<Rightarrow> error option \<times> world" where
  "DeleteInProgressFile env jobKey w =
     (ext_DeleteInProgressFile env jobKey, emit (InProgressFileDelete jobKey) w)"

definition deleteJobRuntimeResources :: "env \<Rightarrow> JobKey \<Rightarrow> world \<Rightarrow> error option \<times> world" where
  "deleteJobRuntimeResources env jobKey w =
     (ext_deleteJobRuntimeResources env jobKey, emit (RuntimeDelete jobKey) w)"

text \<open>\<^verbatim>\<open>telemetry.Error(err); errors.PrintError(err)\<close>\<close>

definition reportError :: "error \<Rightarrow> world \<Rightarrow> world" where
  "reportError err w = emit (ErrorReport err) w"

text \<open>
  Modelled from the spec: \<^verbatim>\<open>errors.FirstError\<close> is not among the source files. Section 9:
  every effect is attempted and the first error that is not nil is returned. Go evaluates
  the arguments of the call from left to right before the call, so the effects have all
  happened, in the order written, when \<open>FirstError\<close> looks at their results.
\<close>

fun FirstError :: "error option list \<Rightarrow> error option" where
  "FirstError [] = None"
| "FirstError (None # errs) = FirstError errs"
| "FirstError (Some e # errs) = Some e"

subsection \<open>Formatting\<close>

text \<open>The verb \<^verbatim>\<open>%d\<close> of \<^verbatim>\<open>fmt.Sprintf\<close>: a sign and the decimal digits.\<close>

definition digitChar :: "nat \<Rightarrow> char" where
  "digitChar n = ''0123456789'' ! n"

fun digits :: "nat \<Rightarrow> string" where
  "digits n = (if n < 10 then [digitChar n] else digits (n div 10) @ [digitChar (n mod 10)])"

declare digits.simps [simp del]

definition Sprintf_d :: "int \<Rightarrow> string" where
  "Sprintf_d i = (if i < 0 then CHR ''-'' # digits (nat (- i)) else digits (nat i))"

text \<open>
  \<^verbatim>\<open>strings.ToLower\<close>. For a string of ASCII bytes the library lowers the letters A to Z
  byte by byte. For any other string it maps every rune by the case tables of Unicode;
  those tables are not modelled, and the answer is the parameter \<open>ext_ToLower_unicode\<close>.
\<close>

definition isASCII :: "string \<Rightarrow> bool" where
  "isASCII s = list_all (\<lambda>c. \<not> digit7 c) s"

definition ToLower_char :: "char \<Rightarrow> char" where
  "ToLower_char c =
     (case map_of (zip ''ABCDEFGHIJKLMNOPQRSTUVWXYZ'' ''abcdefghijklmnopqrstuvwxyz'') c of
        Some l \<Rightarrow> l
      | None \<Rightarrow> c)"

definition strings_ToLower :: "env \<Rightarrow> string \<Rightarrow> string" where
  "strings_ToLower env s = (if isASCII s then map ToLower_char s else ext_ToLower_unicode env s)"

subsection \<open>investigateJobFailure\<close>

definition terminationLine :: "env \<Rightarrow> string \<Rightarrow> ContainerStateTerminated \<Rightarrow> string" where
  "terminationLine env podStatus t =
     ''at least one worker had status '' @ podStatus @ '' and terminated for reason ''
       @ strings_ToLower env (Reason t) @ '' (exit_code='' @ Sprintf_d (sint (ExitCode t)) @ '')''"

text \<open>The inner loop over \<^verbatim>\<open>pod.Status.ContainerStatuses\<close>; it returns \<^verbatim>\<open>reasonFound\<close>.\<close>

fun containerLoop :: "env \<Rightarrow> JobKey \<Rightarrow> string \<Rightarrow> ContainerStatus list \<Rightarrow> bool \<Rightarrow> world \<Rightarrow> bool \<times> world" where
  "containerLoop env jobKey podStatus [] reasonFound w = (reasonFound, w)"
| "containerLoop env jobKey podStatus (containerStatus # rest) reasonFound w =
     (case LastTerminationState_Terminated containerStatus of
        Some t \<Rightarrow>
          (let (u, w1) = writeToJobLogStream env jobKey [terminationLine env podStatus t] w
           in containerLoop env jobKey podStatus rest True w1)
      | None \<Rightarrow>
          (case State_Terminated containerStatus of
             Some t \<Rightarrow>
               (let (u, w1) = writeToJobLogStream env jobKey [terminationLine env podStatus t] w
                in containerLoop env jobKey podStatus rest True w1)
           | None \<Rightarrow> containerLoop env jobKey podStatus rest reasonFound w))"

text \<open>
  The loop over the pods. \<open>Inl err\<close> is the \<^verbatim>\<open>return\<close> from inside the loop (a pod that was
  killed for lack of memory), \<open>Inr reasonFound\<close> the end of the loop.
\<close>

fun podLoop :: "env \<Rightarrow> JobKey \<Rightarrow> Pod list \<Rightarrow> bool \<Rightarrow> world \<Rightarrow> (error option + bool) \<times> world" where
  "podLoop env jobKey [] reasonFound w = (Inr reasonFound, w)"
| "podLoop env jobKey (pod # rest) reasonFound w =
     (if ext_WasPodOOMKilled env pod then
        (let (e1, w1) = writeToJobLogStream env jobKey
                          [''at least one worker was killed because it ran out of out of memory''] w;
             (e2, w2) = SetStatusForJob env jobKey JobWorkerOOM w1;
             (e3, w3) = deleteJobRuntimeResources env jobKey w2
         in (Inl (FirstError [e1, e2, e3]), w3))
      else
        (let podStatus = ext_GetPodStatus env pod;
             (found, w1) = containerLoop env jobKey podStatus (ContainerStatuses pod) reasonFound w
         in podLoop env jobKey rest found w1))"

definition investigateJobFailure :: "env \<Rightarrow> JobKey \<Rightarrow> world \<Rightarrow> error option \<times> world" where
  "investigateJobFailure env jobKey w =
     (let pods = ext_ListPodsByLabel env ''jobID'' (ID jobKey)
      in case podLoop env jobKey pods False w of
           (Inl err, w1) \<Rightarrow> (err, w1)
         | (Inr reasonFound, w1) \<Rightarrow>
             (let (err, w2) = (if \<not> reasonFound
                               then writeToJobLogStream env jobKey [''workers were killed for unknown reason''] w1
                               else (None, w1));
                  (e2, w3) = SetStatusForJob env jobKey JobWorkerError w2;
                  (e3, w4) = deleteJobRuntimeResources env jobKey w3
              in (FirstError [err, e2, e3], w4)))"

subsection \<open>checkIfJobCompleted\<close>

text \<open>
  \<^verbatim>\<open>k8sJob\<close> is a pointer: \<open>None\<close> is nil, and the first statement reads
  \<^verbatim>\<open>k8sJob.Status.Failed\<close>.
\<close>

definition checkIfJobCompleted :: "env \<Rightarrow> JobKey \<Rightarrow> string \<Rightarrow> Job option \<Rightarrow> world \<Rightarrow> error option outcome \<times> world" where
  "checkIfJobCompleted env jobKey queueURL k8sJob w =
     (case k8sJob of
        None \<Rightarrow> (Panics, w)
      | Some kJob \<Rightarrow>
          if sint (Failed (Job_Status kJob)) > 0 then
            (let (err, w1) = investigateJobFailure env jobKey w in (Returns err, w1))
          else
            (case ext_getQueueMetricsFromURL env queueURL of
               Inl err \<Rightarrow> (Returns (Some err), w)
             | Inr queueMessages \<Rightarrow>
                 if \<not> IsEmpty queueMessages then
                   (if sint (Active (Job_Status kJob)) = 0 then
                      (if strset_Has (jobsToDelete w) (ID jobKey) then
                         (let w0 = w\<lparr>jobsToDelete := strset_Remove (jobsToDelete w) (ID jobKey)\<rparr>;
                              (e1, w1) = writeToJobLogStream env jobKey
                                [''unexpected job status because cluster state indicates job has completed but metrics indicate that job is still in progress''] w0;
                              (e2, w2) = SetStatusForJob env jobKey JobUnexpectedError w1;
                              (e3, w3) = deleteJobRuntimeResources env jobKey w2
                          in (Returns (FirstError [e1, e2, e3]), w3))
                       else (Returns None, w\<lparr>jobsToDelete := strset_Add (jobsToDelete w) (ID jobKey)\<rparr>))
                    else (Returns None, w))
                 else
                   (case ext_getRealTimeBatchMetrics env jobKey of
                      Inl err \<Rightarrow> (Returns (Some err), w)
                    | Inr batchMetrics \<Rightarrow>
                        (case ext_downloadJobSpec env jobKey of
                           Inl err \<Rightarrow> (Returns (Some err), w)
                         | Inr jobSpec \<Rightarrow>
                             if Workers jobSpec = sint (Succeeded (Job_Status kJob)) then
                               (if TotalBatchCount jobSpec = Metrics_Succeeded batchMetrics then
                                  (let w0 = w\<lparr>jobsToDelete := strset_Remove (jobsToDelete w) (ID jobKey)\<rparr>;
                                       (e1, w1) = SetStatusForJob env jobKey JobSucceeded w0;
                                       (e2, w2) = deleteJobRuntimeResources env jobKey w1
                                   in (Returns (FirstError [e1, e2]), w2))
                                else if strset_Has (jobsToDelete w) (ID jobKey) then
                                  (let w0 = w\<lparr>jobsToDelete := strset_Remove (jobsToDelete w) (ID jobKey)\<rparr>;
                                       (e1, w1) = SetStatusForJob env jobKey JobCompletedWithFailures w0;
                                       (e2, w2) = deleteJobRuntimeResources env jobKey w1
                                   in (Returns (FirstError [e1, e2]), w2))
                                else (Returns None, w\<lparr>jobsToDelete := strset_Add (jobsToDelete w) (ID jobKey)\<rparr>))
                             else
                               (if strset_Has (jobsToDelete w) (ID jobKey) then
                                  (let w0 = w\<lparr>jobsToDelete := strset_Remove (jobsToDelete w) (ID jobKey)\<rparr>;
                                       (e1, w1) = writeToJobLogStream env jobKey
                                         [''unexpected job state; queue is empty but cluster state still indicates that the job is still in progress''] w0;
                                       (e2, w2) = SetStatusForJob env jobKey JobUnexpectedError w1;
                                       (e3, w3) = deleteJobRuntimeResources env jobKey w2
                                   in (Returns (FirstError [e1, e2, e3]), w3))
                                else (Returns None, w\<lparr>jobsToDelete := strset_Add (jobsToDelete w) (ID jobKey)\<rparr>))))))"

subsection \<open>reconcileInProgressJob\<close>

text \<open>
  \<^verbatim>\<open>queueURL\<close> and \<^verbatim>\<open>k8sJob\<close> are pointers, \<open>None\<close> is nil. The result is the triple the Go
  function returns: the status, the message and the error. \<^verbatim>\<open>_enqueuingLivenessPeriod\<close>,
  \<^verbatim>\<open>job.LivenessFile()\<close>, \<^verbatim>\<open>JobCode.String()\<close>, \<^verbatim>\<open>JobKey.UserString()\<close> and
  \<^verbatim>\<open>getJobQueueURL\<close> are declared outside cron.go and are parameters.
\<close>

definition reconcileInProgressJob :: "env \<Rightarrow> State \<Rightarrow> string option \<Rightarrow> Job option \<Rightarrow> JobCode \<times> string \<times> error option" where
  "reconcileInProgressJob env jobState queueURL k8sJob =
     (let jobKey = State_JobKey jobState in
      if queueURL = None then
        (if time_Sub (ext_now env) (lastUpdated jobState (ext_JobCode_String env JobEnqueuing))
              \<le> doesQueueExistGracePeriod
         then (Status jobState, [], None)
         else
           (case ext_getJobQueueURL env jobKey of
              Inl err \<Rightarrow> (Status jobState, [], Some err)
            | Inr expectedQueueURL \<Rightarrow>
                (JobUnexpectedError,
                 ''terminating job '' @ ext_UserString env jobKey @ ''; sqs queue with url ''
                   @ expectedQueueURL @ '' was not found'',
                 None)))
      else if Status jobState = JobEnqueuing
              \<and> time_Sub (ext_now env) (lastUpdated jobState (ext_LivenessFile env))
                  \<ge> ext_enqueuingLivenessPeriod env + enqueuingLivenessBuffer
      then (JobEnqueueFailed,
            ''terminating job '' @ ext_UserString env jobKey @ ''; enqueuing liveness check failed'',
            None)
      else if Status jobState = JobRunning then
        (if time_Sub (ext_now env) (lastUpdated jobState (ext_JobCode_String env JobRunning))
              \<le> k8sJobExistenceGracePeriod
         then (Status jobState, [], None)
         else if k8sJob = None
         then (JobUnexpectedError,
               ''terminating job '' @ ext_UserString env jobKey @ ''; unable to find kubernetes job'',
               None)
         else (Status jobState, [], None))
      else (Status jobState, [], None))"

subsection \<open>The world views of ManageJobResources\<close>

text \<open>
  \<^verbatim>\<open>k8sJobMap\<close> is a \<^verbatim>\<open>map[string]*kbatch.Job\<close>: it holds addresses, and what an entry gives
  is what the \<open>heap\<close> holds at its address when the entry is read. The loop that fills it is
  \<^verbatim>\<open>for _, kJob := range jobs { k8sJobMap[kJob.Labels["jobID"]] = &kJob; ... }\<close>.
  In the Go of this repository (2020; a variable per iteration came with Go 1.22, for
  modules that ask for it) \<^verbatim>\<open>kJob\<close> is one variable for the whole loop: each iteration
  assigns the next element to it, and \<^verbatim>\<open>&kJob\<close> is the same address every time,
  \<open>kJob_addr\<close> here.
\<close>

type_synonym addr = nat

definition kJob_addr :: addr where
  "kJob_addr = 0"

definition deref :: "(addr \<rightharpoonup> Job) \<Rightarrow> addr option \<Rightarrow> Job option" where
  "deref hp p = (case p of None \<Rightarrow> None | Some a \<Rightarrow> hp a)"

record views =
  inProgressJobIDSet :: strset
  queueURLMap :: "string \<rightharpoonup> string"
  queueJobIDSet :: strset
  heap :: "addr \<rightharpoonup> Job"
  k8sJobMap :: "string \<rightharpoonup> addr"
  k8sJobIDSet :: strset

text \<open>Lines 56 to 59.\<close>

definition inProgressLoop :: "JobKey list \<Rightarrow> strset" where
  "inProgressLoop inProgressJobKeys = fold (\<lambda>jobKey s. strset_Add s (ID jobKey)) inProgressJobKeys []"

text \<open>Lines 73 to 79.\<close>

fun queueLoop :: "env \<Rightarrow> string list \<Rightarrow> (string \<rightharpoonup> string) \<times> strset \<Rightarrow> (string \<rightharpoonup> string) \<times> strset" where
  "queueLoop env [] st = st"
| "queueLoop env (queueURL # rest) (m, s) =
     (let jobKey = ext_jobKeyFromQueueURL env queueURL;
          s1 = strset_Add s (ID jobKey);
          m1 = m(ID jobKey \<mapsto> queueURL)
      in queueLoop env rest (m1, s1))"

text \<open>Lines 92 to 97.\<close>

fun k8sJobLoop :: "Job list \<Rightarrow> (addr \<rightharpoonup> Job) \<times> (string \<rightharpoonup> addr) \<times> strset \<Rightarrow> (addr \<rightharpoonup> Job) \<times> (string \<rightharpoonup> addr) \<times> strset" where
  "k8sJobLoop [] st = st"
| "k8sJobLoop (job # rest) (hp, m, s) =
     (let hp1 = hp(kJob_addr \<mapsto> job);
          m1 = m(mapGet (Labels job) ''jobID'' \<mapsto> kJob_addr);
          s1 = strset_Add s (mapGet (Labels job) ''jobID'')
      in k8sJobLoop rest (hp1, m1, s1))"

definition gatherViews :: "env \<Rightarrow> JobKey list \<Rightarrow> string list \<Rightarrow> Job list \<Rightarrow> views" where
  "gatherViews env inProgressJobKeys queues jobs =
     (let (qm, qs) = queueLoop env queues (Map.empty, []);
          (hp, km, ks) = k8sJobLoop jobs (Map.empty, Map.empty, [])
      in \<lparr>inProgressJobIDSet = inProgressLoop inProgressJobKeys,
          queueURLMap = qm, queueJobIDSet = qs,
          heap = hp, k8sJobMap = km, k8sJobIDSet = ks\<rparr>)"

subsection \<open>One in-progress job (the body of the loop of lines 99 to 191)\<close>

text \<open>Lines 109 to 119, and again lines 154 to 164.\<close>

definition terminateAndCleanUp :: "env \<Rightarrow> JobKey \<Rightarrow> error \<Rightarrow> world \<Rightarrow> world" where
  "terminateAndCleanUp env jobKey err w =
     (let (u, w1) = writeToJobLogStream env jobKey [err, ''terminating job and cleaning up job resources''] w;
          (e1, w2) = DeleteInProgressFile env jobKey w1;
          (e2, w3) = deleteJobRuntimeResources env jobKey w2
      in case FirstError [e1, e2] of None \<Rightarrow> w3 | Some err1 \<Rightarrow> reportError err1 w3)"

text \<open>Lines 184 to 190.\<close>

definition completionCheck :: "env \<Rightarrow> JobKey \<Rightarrow> State \<Rightarrow> string \<Rightarrow> Job option \<Rightarrow> world \<Rightarrow> unit outcome \<times> world" where
  "completionCheck env jobKey jobState queueURL k8sJob w =
     (if Status jobState = JobRunning then
        (case checkIfJobCompleted env jobKey queueURL k8sJob w of
           (Panics, w1) \<Rightarrow> (Panics, w1)
         | (Returns None, w1) \<Rightarrow> (Returns (), w1)
         | (Returns (Some err), w1) \<Rightarrow> (Returns (), reportError err w1))
      else (Returns (), w))"

text \<open>Lines 171 to 182: \<^verbatim>\<open>jobSpec.Timeout\<close> is a pointer to an int, \<open>None\<close> is nil.\<close>

definition timedOut :: "env \<Rightarrow> BatchJob \<Rightarrow> int \<Rightarrow> bool" where
  "timedOut env jobSpec seconds =
     (time_Sub (ext_now env) (StartTime jobSpec) > Duration_mul time_Second seconds)"

definition timeoutOrCompletion :: "env \<Rightarrow> JobKey \<Rightarrow> State \<Rightarrow> string \<Rightarrow> Job option \<Rightarrow> BatchJob \<Rightarrow> world \<Rightarrow> unit outcome \<times> world" where
  "timeoutOrCompletion env jobKey jobState queueURL k8sJob jobSpec w =
     (case Timeout jobSpec of
        None \<Rightarrow> completionCheck env jobKey jobState queueURL k8sJob w
      | Some seconds \<Rightarrow>
          if timedOut env jobSpec seconds then
            (let (e1, w1) = SetStatusForJob env jobKey JobTimedOut w;
                 (e2, w2) = deleteJobRuntimeResources env jobKey w1;
                 (e3, w3) = writeToJobLogStream env jobKey
                              [''terminating job after exceeding the specified timeout of ''
                                 @ Sprintf_d seconds @ '' seconds''] w2
             in case FirstError [e1, e2, e3] of
                  None \<Rightarrow> (Returns (), w3)
                | Some err \<Rightarrow> (Returns (), reportError err w3))
          else completionCheck env jobKey jobState queueURL k8sJob w)"

text \<open>Lines 151 to 190: the cached spec, or its download.\<close>

definition withJobSpec :: "env \<Rightarrow> JobKey \<Rightarrow> State \<Rightarrow> string \<Rightarrow> Job option \<Rightarrow> world \<Rightarrow> unit outcome \<times> world" where
  "withJobSpec env jobKey jobState queueURL k8sJob w =
     (case inProgressJobSpecMap w (ID jobKey) of
        Some jobSpec \<Rightarrow> timeoutOrCompletion env jobKey jobState queueURL k8sJob jobSpec w
      | None \<Rightarrow>
          (case ext_downloadJobSpec env jobKey of
             Inl err \<Rightarrow> (Returns (), terminateAndCleanUp env jobKey err w)
           | Inr jobSpec \<Rightarrow>
               timeoutOrCompletion env jobKey jobState queueURL k8sJob jobSpec
                 (w\<lparr>inProgressJobSpecMap := (inProgressJobSpecMap w)(ID jobKey \<mapsto> jobSpec)\<rparr>)))"

definition handleJob :: "env \<Rightarrow> views \<Rightarrow> JobKey \<Rightarrow> world \<Rightarrow> unit outcome \<times> world" where
  "handleJob env v jobKey w =
     (let queueURL = (if strset_Has (queueJobIDSet v) (ID jobKey)
                      then Some (mapGet (queueURLMap v) (ID jobKey)) else None);
          k8sJob = deref (heap v) (k8sJobMap v (ID jobKey))
      in case ext_GetJobState env jobKey of
           Inl err \<Rightarrow> (Returns (), terminateAndCleanUp env jobKey err w)
         | Inr jobState \<Rightarrow>
             if \<not> IsInProgress (Status jobState) then
               (let (u1, w1) = DeleteInProgressFile env jobKey w;
                    (u2, w2) = deleteJobRuntimeResources env jobKey w1
                in (Returns (), w2))
             else
               (case reconcileInProgressJob env jobState queueURL k8sJob of
                  (newStatusCode, msg, Some err) \<Rightarrow> (Returns (), reportError err w)
                | (newStatusCode, msg, None) \<Rightarrow>
                    (case (if newStatusCode \<noteq> Status jobState then
                             (let (e1, w1) = writeToJobLogStream env jobKey [msg] w;
                                  (e2, w2) = SetStatusForJob env jobKey newStatusCode w1
                              in (FirstError [e1, e2], w2))
                           else (None, w)) of
                       (Some err, w2) \<Rightarrow> (Returns (), reportError err w2)
                     | (None, w2) \<Rightarrow>
                         (case queueURL of
                            None \<Rightarrow> (Returns (), w2)
                          | Some url \<Rightarrow> withJobSpec env jobKey jobState url k8sJob w2))))"

subsection \<open>The two garbage-collection loops and the pass\<close>

text \<open>A loop over a list whose body may panic: the panic ends the loop.\<close>

fun forEach :: "('a \<Rightarrow> world \<Rightarrow> unit outcome \<times> world) \<Rightarrow> 'a list \<Rightarrow> world \<Rightarrow> unit outcome \<times> world" where
  "forEach body [] w = (Returns (), w)"
| "forEach body (x # xs) w =
     (case body x w of
        (Panics, w1) \<Rightarrow> (Panics, w1)
      | (Returns u, w1) \<Rightarrow> forEach body xs w1)"

definition rangeOrder :: "env \<Rightarrow> strset \<Rightarrow> string list" where
  "rangeOrder env s = sort_key (ext_rangeRank env) s"

text \<open>Lines 194 to 203: a batch of the orchestrator whose job is not in progress.\<close>

definition orphanBatch :: "env \<Rightarrow> views \<Rightarrow> string \<Rightarrow> world \<Rightarrow> unit outcome \<times> world" where
  "orphanBatch env v jobID w =
     (case deref (heap v) (k8sJobMap v jobID) of
        None \<Rightarrow> (Panics, w)
      | Some kJob \<Rightarrow>
          (let jobKey = \<lparr>APIName = mapGet (Labels kJob) ''apiName'', ID = mapGet (Labels kJob) ''jobID''\<rparr>;
               (err, w1) = deleteJobRuntimeResources env jobKey w
           in case err of
                None \<Rightarrow> (Returns (), w1)
              | Some e \<Rightarrow> (Returns (), reportError e w1)))"

text \<open>Lines 206 to 232: a queue with no batch whose job is not in progress.\<close>

definition queueCreatedTimestamp :: "env \<Rightarrow> (string \<rightharpoonup> string) \<Rightarrow> Time" where
  "queueCreatedTimestamp env attributes =
     (case ext_ParseInt64 env (mapGet attributes ''CreatedTimestamp'') of
        Some parsedSeconds \<Rightarrow> time_Unix parsedSeconds
      | None \<Rightarrow> zeroTime)"

definition orphanQueue :: "env \<Rightarrow> views \<Rightarrow> string \<Rightarrow> world \<Rightarrow> unit outcome \<times> world" where
  "orphanQueue env v jobID w =
     (let (attributes, err) = ext_GetAllQueueAttributes env (mapGet (queueURLMap v) jobID);
          w1 = (case err of None \<Rightarrow> w | Some e \<Rightarrow> reportError e w)
      in if time_Sub (ext_now env) (queueCreatedTimestamp env attributes) \<le> doesQueueExistGracePeriod
         then (Returns (), w1)
         else
           (let jobKey = ext_jobKeyFromQueueURL env (mapGet (queueURLMap v) jobID);
                (err1, w2) = deleteJobRuntimeResources env jobKey w1
            in case err1 of
                 None \<Rightarrow> (Returns (), w2)
               | Some e \<Rightarrow> (Returns (), reportError e w2)))"

text \<open>Lines 99 to 239, once the three views are gathered.\<close>

definition reconcileAll :: "env \<Rightarrow> views \<Rightarrow> JobKey list \<Rightarrow> world \<Rightarrow> error option outcome \<times> world" where
  "reconcileAll env v inProgressJobKeys w =
     (case forEach (handleJob env v) inProgressJobKeys w of
        (Panics, w1) \<Rightarrow> (Panics, w1)
      | (Returns u1, w1) \<Rightarrow>
          (case forEach (orphanBatch env v)
                  (rangeOrder env (strset_Difference (k8sJobIDSet v) [inProgressJobIDSet v])) w1 of
             (Panics, w2) \<Rightarrow> (Panics, w2)
           | (Returns u2, w2) \<Rightarrow>
               (case forEach (orphanQueue env v)
                       (rangeOrder env (strset_Difference (queueJobIDSet v) [k8sJobIDSet v, inProgressJobIDSet v])) w2 of
                  (Panics, w3) \<Rightarrow> (Panics, w3)
                | (Returns u3, w3) \<Rightarrow>
                    (Returns None,
                     w3\<lparr>jobsToDelete := filter (strset_Has (inProgressJobIDSet v)) (jobsToDelete w3)\<rparr>))))"

definition ManageJobResources :: "env \<Rightarrow> world \<Rightarrow> error option outcome \<times> world" where
  "ManageJobResources env w =
     (case ext_ListAllInProgressJobKeys env of
        Inl err \<Rightarrow> (Returns (Some err), w)
      | Inr inProgressJobKeys \<Rightarrow>
          (let w1 = w\<lparr>inProgressJobSpecMap :=
                       inProgressJobSpecMap w |` set (inProgressLoop inProgressJobKeys)\<rparr>
           in case ext_listQueueURLsForAllAPIs env of
                Inl err \<Rightarrow> (Returns (Some err), w1)
              | Inr queues \<Rightarrow>
                  (case ext_ListJobs env of
                     Inl err \<Rightarrow> (Returns (Some err), w1)
                   | Inr jobs \<Rightarrow>
                       reconcileAll env (gatherViews env inProgressJobKeys queues jobs)
                         inProgressJobKeys w1)))"

section \<open>Sample deployments\<close>

subsection \<open>A sample deployment\<close>

text \<open>
  The first scenario of section 8 of the spec: job \<open>a\<close> of the API \<open>api\<close> is in progress and
  running, its queue is listed and empty, its batch has four workers that all succeeded,
  and the metrics count all of its 1000 batches as succeeded. Every write succeeds. The
  clock stands at 1600000000 seconds after the epoch. No string of the sample deployments
  has a byte outside ASCII, so that \<open>ext_ToLower_unicode\<close> is never consulted in them.
\<close>

definition jobA :: JobKey where
  "jobA = \<lparr>APIName = ''api'', ID = ''a''\<rparr>"

definition batchA :: Job where
  "batchA = \<lparr>Labels = [''apiName'' \<mapsto> ''api'', ''jobID'' \<mapsto> ''a''],
             Job_Status = \<lparr>Active = 0, Succeeded = 4, Failed = 0\<rparr>\<rparr>"

definition sampleNow :: Time where
  "sampleNow = 1600000000 * time_Second"

definition sampleState :: "JobKey \<Rightarrow> State" where
  "sampleState jobKey =
     \<lparr>State_JobKey = jobKey, Status = JobRunning,
      LastUpdatedMap = [''enqueuing'' \<mapsto> sampleNow - 120 * time_Second,
                        ''running'' \<mapsto> sampleNow - 60 * time_Second]\<rparr>"

definition sampleEnv :: env where
  "sampleEnv =
     \<lparr>ext_now = sampleNow,
      ext_ListAllInProgressJobKeys = Inr [jobA],
      ext_GetJobState = (\<lambda>jobKey. Inr (sampleState jobKey)),
      ext_SetStatusForJob = (\<lambda>jobKey code. None),
      ext_DeleteInProgressFile = (\<lambda>jobKey. None),
      ext_deleteJobRuntimeResources = (\<lambda>jobKey. None),
      ext_writeToJobLogStream = (\<lambda>jobKey msgs. None),
      ext_downloadJobSpec = (\<lambda>jobKey. Inr \<lparr>Workers = 4, TotalBatchCount = 1000, Timeout = None,
                                               StartTime = sampleNow - 100 * time_Second\<rparr>),
      ext_listQueueURLsForAllAPIs = Inr [''q-a''],
      ext_jobKeyFromQueueURL = (\<lambda>url. \<lparr>APIName = ''api'', ID = drop 2 url\<rparr>),
      ext_getJobQueueURL = (\<lambda>jobKey. Inr (''q-'' @ ID jobKey)),
      ext_GetAllQueueAttributes = (\<lambda>url. ([''CreatedTimestamp'' \<mapsto> ''1599999990''], None)),
      ext_getQueueMetricsFromURL = (\<lambda>url. Inr \<lparr>IsEmpty = True\<rparr>),
      ext_getRealTimeBatchMetrics = (\<lambda>jobKey. Inr \<lparr>Metrics_Succeeded = 1000\<rparr>),
      ext_ListJobs = Inr [batchA],
      ext_ListPodsByLabel = (\<lambda>label v. []),
      ext_WasPodOOMKilled = (\<lambda>pod. Pod_Name pod = ''oom''),
      ext_GetPodStatus = (\<lambda>pod. ''Failed''),
      ext_ParseInt64 = (\<lambda>s. if s = ''1599999990'' then Some 1599999990 else None),
      ext_UserString = (\<lambda>jobKey. ID jobKey @ '' (api '' @ APIName jobKey @ '')''),
      ext_JobCode_String = (\<lambda>code. if code = JobEnqueuing then ''enqueuing''
                                     else if code = JobRunning then ''running'' else ''other''),
      ext_LivenessFile = ''liveness'',
      ext_enqueuingLivenessPeriod = 20 * time_Second,
      ext_rangeRank = length,
      ext_ToLower_unicode = (\<lambda>s. s)\<rparr>"

definition emptyWorld :: world where
  "emptyWorld = \<lparr>jobsToDelete = [], inProgressJobSpecMap = Map.empty, trace = []\<rparr>"

subsection \<open>Variations of the sample deployment\<close>

text \<open>The orchestrator lists no batch.\<close>

definition envMissingBatch :: env where
  "envMissingBatch = sampleEnv\<lparr>ext_ListJobs := Inr []\<rparr>"

text \<open>The state store holds the status Succeeded for every job.\<close>

definition envTerminal :: env where
  "envTerminal = sampleEnv\<lparr>ext_GetJobState := (\<lambda>jobKey. Inr ((sampleState jobKey)\<lparr>Status := JobSucceeded\<rparr>))\<rparr>"

text \<open>The metrics count 995 of the 1000 batches as succeeded.\<close>

definition envLaggingMetrics :: env where
  "envLaggingMetrics = sampleEnv\<lparr>ext_getRealTimeBatchMetrics := (\<lambda>jobKey. Inr \<lparr>Metrics_Succeeded = 995\<rparr>)\<rparr>"

text \<open>The queue service lists no queue.\<close>

definition envMissingQueue :: env where
  "envMissingQueue = sampleEnv\<lparr>ext_listQueueURLsForAllAPIs := Inr []\<rparr>"

text \<open>No queue is listed, and the state store holds the status UnexpectedError.\<close>

definition envUnexpectedError :: env where
  "envUnexpectedError = envMissingQueue\<lparr>ext_GetJobState :=
     (\<lambda>jobKey. Inr ((sampleState jobKey)\<lparr>Status := JobUnexpectedError\<rparr>))\<rparr>"

text \<open>The job's spec has a timeout of 60 seconds, and the job started 120 seconds ago.\<close>

definition envTimeout :: env where
  "envTimeout = sampleEnv\<lparr>ext_downloadJobSpec :=
     (\<lambda>jobKey. Inr \<lparr>Workers = 4, TotalBatchCount = 1000, Timeout = Some 60,
                      StartTime = sampleNow - 120 * time_Second\<rparr>)\<rparr>"

text \<open>
  One worker of the batch failed; the job has one pod, not killed for lack of memory, with
  two terminated containers.
\<close>

definition envTwoContainers :: env where
  "envTwoContainers = sampleEnv\<lparr>
     ext_ListJobs := Inr [batchA\<lparr>Job_Status := \<lparr>Active = 0, Succeeded = 3, Failed = 1\<rparr>\<rparr>],
     ext_ListPodsByLabel := (\<lambda>label v.
       [\<lparr>Pod_Name = ''worker'',
         ContainerStatuses =
           [\<lparr>State_Terminated = None,
             LastTerminationState_Terminated = Some \<lparr>ExitCode = 1, Reason = ''Error''\<rparr>\<rparr>,
            \<lparr>State_Terminated = Some \<lparr>ExitCode = 0, Reason = ''Completed''\<rparr>,
             LastTerminationState_Terminated = None\<rparr>]\<rparr>])\<rparr>"

text \<open>The job has one pod, killed for lack of memory.\<close>

definition envOOM :: env where
  "envOOM = sampleEnv\<lparr>ext_ListPodsByLabel := (\<lambda>label v. [\<lparr>Pod_Name = ''oom'', ContainerStatuses = []\<rparr>])\<rparr>"

text \<open>The batch of a second job, \<open>b\<close>, with one failed worker.\<close>

definition batchB :: Job where
  "batchB = \<lparr>Labels = [''apiName'' \<mapsto> ''api'', ''jobID'' \<mapsto> ''b''],
             Job_Status = \<lparr>Active = 0, Succeeded = 0, Failed = 1\<rparr>\<rparr>"

text \<open>
  No job is in progress and no batch is listed: the queue of \<open>a\<close>, created 10 seconds
  before the pass, is an orphan.
\<close>

definition envOrphanQueue :: env where
  "envOrphanQueue = sampleEnv\<lparr>ext_ListAllInProgressJobKeys := Inr [], ext_ListJobs := Inr []\<rparr>"

text \<open>The same, 60 seconds later.\<close>

definition envOldOrphanQueue :: env where
  "envOldOrphanQueue = envOrphanQueue\<lparr>ext_now := sampleNow + 60 * time_Second\<rparr>"

text \<open>The same, with a queue service that refuses to give the attributes.\<close>

definition envUnreadableQueue :: env where
  "envUnreadableQueue = envOrphanQueue\<lparr>ext_GetAllQueueAttributes := (\<lambda>url. (Map.empty, Some ''AccessDenied''))\<rparr>"

text \<open>
  Job \<open>a\<close> is in progress and running, with its queue and no batch; a second queue, of a
  job \<open>b\<close> that is not in progress and has no batch, was created 70 seconds before the pass.
\<close>

definition envPanicBeforeGC :: env where
  "envPanicBeforeGC = envMissingBatch\<lparr>ext_listQueueURLsForAllAPIs := Inr [''q-a'', ''q-b''],
                                     ext_now := sampleNow + 60 * time_Second\<rparr>"

section \<open>What a pass did\<close>

text \<open>
  The events a run appends to the trace, and the predicates on events that the statements
  below use.
\<close>

text \<open>The events of a run from \<open>w\<close> to \<open>w'\<close>.\<close>

definition newEvents :: "world \<Rightarrow> world \<Rightarrow> event list" where
  "newEvents w w' = drop (length (trace w)) (trace w')"

text \<open>The event is an effect on the job \<open>k\<close>, or an error report.\<close>

fun concerns :: "JobKey \<Rightarrow> event \<Rightarrow> bool" where
  "concerns k (LogWrite k' msgs) = (k' = k)"
| "concerns k (StatusWrite k' code) = (k' = k)"
| "concerns k (InProgressFileDelete k') = (k' = k)"
| "concerns k (RuntimeDelete k') = (k' = k)"
| "concerns k (ErrorReport err) = True"

text \<open>The event is an effect on a job key with the identifier \<open>jobID\<close>.\<close>

definition touches :: "string \<Rightarrow> event \<Rightarrow> bool" where
  "touches jobID e = (case e of ErrorReport err \<Rightarrow> False
                      | LogWrite k msgs \<Rightarrow> ID k = jobID
                      | StatusWrite k code \<Rightarrow> ID k = jobID
                      | InProgressFileDelete k \<Rightarrow> ID k = jobID
                      | RuntimeDelete k \<Rightarrow> ID k = jobID)"

text \<open>The event is the deletion of the runtime resources of \<open>key\<close>, or an error report.\<close>

fun cleanup :: "JobKey \<Rightarrow> event \<Rightarrow> bool" where
  "cleanup key (RuntimeDelete k) = (k = key)"
| "cleanup key (ErrorReport err) = True"
| "cleanup key _ = False"

text \<open>
  The event is the write of one line to the log stream of \<open>k\<close>: one call of
  \<^verbatim>\<open>writeToJobLogStream\<close> with one message.
\<close>

fun isLine :: "JobKey \<Rightarrow> event \<Rightarrow> bool" where
  "isLine k (LogWrite k' msgs) = (k' = k \<and> length msgs = 1)"
| "isLine k _ = False"

text \<open>The same of the event before, if there is one.\<close>

fun isLineFor :: "JobKey \<Rightarrow> event option \<Rightarrow> bool" where
  "isLineFor k (Some (LogWrite k' msgs)) = (k' = k \<and> length msgs = 1)"
| "isLineFor k _ = False"

text \<open>The statuses that the code explains in the log stream before it writes them.\<close>

fun needsLine :: "JobCode \<Rightarrow> bool" where
  "needsLine JobUnexpectedError = True"
| "needsLine JobEnqueueFailed = True"
| "needsLine JobWorkerOOM = True"
| "needsLine JobWorkerError = True"
| "needsLine _ = False"

text \<open>
  Every write of such a status comes right after the write of a line to the log stream of
  the same job; \<open>prev\<close> is the event before the list.
\<close>

fun explained :: "event option \<Rightarrow> event list \<Rightarrow> bool" where
  "explained prev [] = True"
| "explained prev (StatusWrite k code # es) =
     ((if needsLine code then isLineFor k prev else True) \<and> explained (Some (StatusWrite k code)) es)"
| "explained prev (e # es) = explained (Some e) es"

text \<open>The statuses for which the code writes one line, in one place.\<close>

fun exactlyOneLine :: "JobCode \<Rightarrow> bool" where
  "exactlyOneLine JobUnexpectedError = True"
| "exactlyOneLine JobEnqueueFailed = True"
| "exactlyOneLine _ = False"

text \<open>
  The events of the handling of the job \<open>k\<close>, read from its start; \<open>before\<close> holds the events
  already read. At every write of a status that needs a line, the status is written for
  \<open>k\<close>, and all the handling did before is to write lines to the log stream of \<open>k\<close>, one
  line in each call: at least one line, and exactly one for UnexpectedError and
  EnqueueFailed.
\<close>

fun explainedIn :: "JobKey \<Rightarrow> event list \<Rightarrow> event list \<Rightarrow> bool" where
  "explainedIn k before [] = True"
| "explainedIn k before (StatusWrite k' code # es) =
     ((if needsLine code
       then k' = k \<and> before \<noteq> [] \<and> list_all (isLine k) before
            \<and> (if exactlyOneLine code then length before = 1 else True)
       else True)
      \<and> explainedIn k (before @ [StatusWrite k' code]) es)"
| "explainedIn k before (e # es) = explainedIn k (before @ [e]) es"

text \<open>The event is the write of a status that needs a line.\<close>

fun writesNeedy :: "event \<Rightarrow> bool" where
  "writesNeedy (StatusWrite k code) = needsLine code"
| "writesNeedy _ = False"

text \<open>The number of lines written to the log stream of \<open>k\<close>.\<close>

definition linesFor :: "JobKey \<Rightarrow> event list \<Rightarrow> nat" where
  "linesFor k evs = length (filter (isLine k) evs)"

text \<open>The line of line 358 of cron.go.\<close>

definition oomLine :: string where
  "oomLine = ''at least one worker was killed because it ran out of out of memory''"

section \<open>Lemmas\<close>

subsection \<open>Traces\<close>

lemmas effects = writeToJobLogStream_def SetStatusForJob_def DeleteInProgressFile_def
  deleteJobRuntimeResources_def reportError_def emit_def

lemma explained_weaken:
  assumes "explained None es"
  shows "explained prev es"
proof (cases es)
  case (Cons e es')
  with assms show ?thesis by (cases e) (auto split: if_splits)
qed simp

lemma explained_append: "explained prev as \<Longrightarrow> explained None bs \<Longrightarrow> explained prev (as @ bs)"
proof (induction prev as rule: explained.induct)
  case (1 prev)
  then show ?case by (simp add: explained_weaken)
qed auto

lemma explained_after_lines:
  "list_all (isLine k) ls \<Longrightarrow> ls \<noteq> [] \<Longrightarrow> explained (Some (StatusWrite k code)) es \<Longrightarrow>
   explained prev (ls @ StatusWrite k code # es)"
proof (induction ls arbitrary: prev)
  case (Cons e ls)
  show ?case
  proof (cases ls)
    case Nil
    with Cons.prems show ?thesis by (cases e) auto
  next
    case (Cons e' ls')
    with Cons.prems Cons.IH [of "Some e"] show ?thesis by (cases e) auto
  qed
qed simp

lemma isLine_concerns: "list_all (isLine k) ls \<Longrightarrow> list_all (concerns k) ls"
proof (induction ls)
  case (Cons e ls)
  then show ?case by (cases e) auto
qed simp

lemma cleanup_concerns: "list_all (cleanup key) evs \<Longrightarrow> list_all (concerns key) evs"
proof (induction evs)
  case (Cons e evs)
  then show ?case by (cases e) auto
qed simp

lemma cleanup_explained: "list_all (cleanup key) evs \<Longrightarrow> explained prev evs"
proof (induction evs arbitrary: prev)
  case (Cons e evs)
  then show ?case by (cases e) auto
qed simp

lemma concerns_not_touches:
  "list_all (concerns k) evs \<Longrightarrow> ID k \<noteq> x \<Longrightarrow> list_all (\<lambda>e. \<not> touches x e) evs"
proof (induction evs)
  case (Cons e evs)
  then show ?case by (cases e) (auto simp: touches_def)
qed simp

lemma cleanup_not_touches:
  "list_all (cleanup key) evs \<Longrightarrow> ID key \<noteq> x \<Longrightarrow> list_all (\<lambda>e. \<not> touches x e) evs"
  by (rule concerns_not_touches [OF cleanup_concerns])

lemma reports_not_touches:
  "list_all (\<lambda>e. case e of ErrorReport err \<Rightarrow> True | _ \<Rightarrow> False) evs \<Longrightarrow>
   list_all (\<lambda>e. \<not> touches x e) evs"
proof (induction evs)
  case (Cons e evs)
  then show ?case by (cases e) (auto simp: touches_def)
qed simp

lemma concerns_other_no_status:
  "list_all (concerns k') evs \<Longrightarrow> k' \<noteq> k \<Longrightarrow> list_all (\<lambda>e. \<forall>code. e \<noteq> StatusWrite k code) evs"
  by (induction evs) auto

lemma cleanup_no_status:
  "list_all (cleanup key) evs \<Longrightarrow> list_all (\<lambda>e. \<forall>code. e \<noteq> StatusWrite k code) evs"
  by (induction evs) auto

subsection \<open>Durations\<close>

lemma time_Sub_le:
  "minDuration \<le> g \<Longrightarrow> g < maxDuration \<Longrightarrow> (time_Sub t u \<le> g) = (t - u \<le> g)"
  by (auto simp: time_Sub_def)

lemma grace_bounds:
  "minDuration \<le> doesQueueExistGracePeriod" "doesQueueExistGracePeriod < maxDuration"
  "minDuration \<le> k8sJobExistenceGracePeriod" "k8sJobExistenceGracePeriod < maxDuration"
  by (simp_all add: minDuration_def maxDuration_def doesQueueExistGracePeriod_def
        k8sJobExistenceGracePeriod_def time_Second_def)

subsection \<open>The failure investigator and the completion classifier\<close>

text \<open>
  What \<^verbatim>\<open>investigateJobFailure\<close> appends to the trace: lines of the job's log stream, at
  least one, then the status WorkerOOM or WorkerError, then the deletion of the runtime
  resources.
\<close>

lemma containerLoop_lines:
  "containerLoop env k podStatus cs found w = (found', w') \<Longrightarrow>
   \<exists>ls. w' = w\<lparr>trace := trace w @ ls\<rparr> \<and> list_all (isLine k) ls \<and> (found' = (found \<or> ls \<noteq> []))"
proof (induction cs arbitrary: found w)
  case Nil
  then show ?case by (intro exI [of _ "[]"]) auto
next
  case (Cons c cs)
  show ?case
  proof (cases "LastTerminationState_Terminated c")
    case (Some t)
    with Cons.prems have "containerLoop env k podStatus cs True (emit (LogWrite k [terminationLine env podStatus t]) w) = (found', w')"
      by (simp add: effects)
    from Cons.IH [OF this] show ?thesis by (auto simp: emit_def)
  next
    case None
    show ?thesis
    proof (cases "State_Terminated c")
      case (Some t)
      with None Cons.prems have "containerLoop env k podStatus cs True (emit (LogWrite k [terminationLine env podStatus t]) w) = (found', w')"
        by (simp add: effects)
      from Cons.IH [OF this] show ?thesis by (auto simp: emit_def)
    next
      case None2: None
      with None Cons.prems have "containerLoop env k podStatus cs found w = (found', w')"
        by simp
      from Cons.IH [OF this] show ?thesis .
    qed
  qed
qed

lemma podLoop_lines:
  "podLoop env k pods found w = (res, w') \<Longrightarrow>
   \<exists>ls. list_all (isLine k) ls \<and>
     (case res of
        Inl err \<Rightarrow> w' = w\<lparr>trace := trace w @ ls @ [LogWrite k [oomLine], StatusWrite k JobWorkerOOM, RuntimeDelete k]\<rparr>
      | Inr found' \<Rightarrow> w' = w\<lparr>trace := trace w @ ls\<rparr> \<and> (found' = (found \<or> ls \<noteq> [])))"
proof (induction pods arbitrary: found w)
  case Nil
  then show ?case by (intro exI [of _ "[]"]) auto
next
  case (Cons pod pods)
  show ?case
  proof (cases "ext_WasPodOOMKilled env pod")
    case True
    with Cons.prems have "res = Inl (FirstError [ext_writeToJobLogStream env k [oomLine], ext_SetStatusForJob env k JobWorkerOOM, ext_deleteJobRuntimeResources env k])"
      and "w' = w\<lparr>trace := trace w @ [] @ [LogWrite k [oomLine], StatusWrite k JobWorkerOOM, RuntimeDelete k]\<rparr>"
      by (auto simp: effects oomLine_def)
    then show ?thesis by (intro exI [of _ "[]"]) simp
  next
    case False
    obtain f1 w1 where c: "containerLoop env k (ext_GetPodStatus env pod) (ContainerStatuses pod) found w = (f1, w1)"
      by (cases "containerLoop env k (ext_GetPodStatus env pod) (ContainerStatuses pod) found w")
    from containerLoop_lines [OF c] obtain ls1 where
      l1: "w1 = w\<lparr>trace := trace w @ ls1\<rparr>" "list_all (isLine k) ls1" "f1 = (found \<or> ls1 \<noteq> [])" by blast
    from Cons.prems False c have "podLoop env k pods f1 w1 = (res, w')" by simp
    from Cons.IH [OF this] obtain ls2 where
      l2: "list_all (isLine k) ls2"
        "(case res of
        Inl err \<Rightarrow> w' = w1\<lparr>trace := trace w1 @ ls2 @ [LogWrite k [oomLine], StatusWrite k JobWorkerOOM, RuntimeDelete k]\<rparr>
      | Inr found' \<Rightarrow> w' = w1\<lparr>trace := trace w1 @ ls2\<rparr> \<and> (found' = (f1 \<or> ls2 \<noteq> [])))" by blast
    show ?thesis
      using l1 l2 by (intro exI [of _ "ls1 @ ls2"]) (auto split: sum.splits)
  qed
qed

lemma investigateJobFailure_events:
  assumes that: "investigateJobFailure env k w = (err, w')"
  shows "\<exists>ls code. list_all (isLine k) ls \<and> ls \<noteq> [] \<and> (code = JobWorkerOOM \<or> code = JobWorkerError) \<and>
     w' = w\<lparr>trace := trace w @ ls @ [StatusWrite k code, RuntimeDelete k]\<rparr>"
proof -
  obtain res w1 where p: "podLoop env k (ext_ListPodsByLabel env ''jobID'' (ID k)) False w = (res, w1)"
    by (cases "podLoop env k (ext_ListPodsByLabel env ''jobID'' (ID k)) False w")
  from podLoop_lines [OF p] obtain ls where
    ls: "list_all (isLine k) ls"
      "(case res of
        Inl err \<Rightarrow> w1 = w\<lparr>trace := trace w @ ls @ [LogWrite k [oomLine], StatusWrite k JobWorkerOOM, RuntimeDelete k]\<rparr>
      | Inr found' \<Rightarrow> w1 = w\<lparr>trace := trace w @ ls\<rparr> \<and> (found' = (False \<or> ls \<noteq> [])))" by blast
  show ?thesis
  proof (cases res)
    case (Inl e)
    with p ls have "w' = w\<lparr>trace := trace w @ (ls @ [LogWrite k [oomLine]]) @ [StatusWrite k JobWorkerOOM, RuntimeDelete k]\<rparr>"
      using that by (simp add: investigateJobFailure_def)
    moreover have "list_all (isLine k) (ls @ [LogWrite k [oomLine]])" using ls by simp
    ultimately show ?thesis by blast
  next
    case (Inr found)
    show ?thesis
    proof (cases found)
      case True
      with Inr p ls that have "w' = w\<lparr>trace := trace w @ ls @ [StatusWrite k JobWorkerError, RuntimeDelete k]\<rparr>" "ls \<noteq> []"
        by (auto simp: investigateJobFailure_def effects)
      with ls show ?thesis by blast
    next
      case False
      with Inr p ls that have "w' = w\<lparr>trace := trace w @ [LogWrite k [''workers were killed for unknown reason'']] @ [StatusWrite k JobWorkerError, RuntimeDelete k]\<rparr>"
        by (auto simp: investigateJobFailure_def effects)
      moreover have "list_all (isLine k) [LogWrite k [''workers were killed for unknown reason'']]" by simp
      ultimately show ?thesis by blast
    qed
  qed
qed

lemma investigateJobFailure_tidy:
  assumes "investigateJobFailure env k w = (err, w')"
  shows "\<exists>evs. trace w' = trace w @ evs \<and> list_all (concerns k) evs \<and> explained None evs"
proof -
  from investigateJobFailure_events [OF assms] obtain ls code where
    ls: "list_all (isLine k) ls" "ls \<noteq> []" "code = JobWorkerOOM \<or> code = JobWorkerError"
      "w' = w\<lparr>trace := trace w @ ls @ [StatusWrite k code, RuntimeDelete k]\<rparr>" by blast
  have "explained None (ls @ StatusWrite k code # [RuntimeDelete k])"
    using ls by (intro explained_after_lines) auto
  moreover have "list_all (concerns k) (ls @ [StatusWrite k code, RuntimeDelete k])"
    using ls isLine_concerns [of k ls] by simp
  ultimately show ?thesis using ls by simp
qed

lemma checkIfJobCompleted_tidy:
  assumes "checkIfJobCompleted env k url kj w = (r, w')"
  shows "\<exists>evs. trace w' = trace w @ evs \<and> list_all (concerns k) evs \<and> explained None evs"
proof (cases kj)
  case None
  with assms show ?thesis by (simp add: checkIfJobCompleted_def)
next
  case (Some kJob)
  show ?thesis
  proof (cases "sint (Failed (Job_Status kJob)) > 0")
    case True
    obtain err w1 where i: "investigateJobFailure env k w = (err, w1)"
      by (cases "investigateJobFailure env k w")
    with assms Some True have "w' = w1" by (simp add: checkIfJobCompleted_def)
    with investigateJobFailure_tidy [OF i] show ?thesis by simp
  next
    case False
    with assms Some show ?thesis
      by (auto simp: checkIfJobCompleted_def effects split: sum.splits if_splits)
  qed
qed

subsection \<open>One in-progress job\<close>

text \<open>
  Whatever the handling of a job appends to the trace concerns that job, and every status
  that needs a line comes right after one.
\<close>

lemma completionCheck_tidy:
  assumes "completionCheck env k jobState url kj w = (r, w')"
  shows "\<exists>evs. trace w' = trace w @ evs \<and> list_all (concerns k) evs \<and> explained None evs"
proof (cases "Status jobState = JobRunning")
  case False
  with assms show ?thesis by (simp add: completionCheck_def)
next
  case True
  obtain r1 w1 where c: "checkIfJobCompleted env k url kj w = (r1, w1)"
    by (cases "checkIfJobCompleted env k url kj w")
  from checkIfJobCompleted_tidy [OF c] obtain evs where
    evs: "trace w1 = trace w @ evs" "list_all (concerns k) evs" "explained None evs" by blast
  have "explained None (evs @ [ErrorReport e])" for e
    using evs by (intro explained_append) auto
  with assms True c evs show ?thesis
    by (auto simp: completionCheck_def effects split: outcome.splits option.splits)
qed

lemma timeoutOrCompletion_tidy:
  assumes "timeoutOrCompletion env k jobState url kj jobSpec w = (r, w')"
  shows "\<exists>evs. trace w' = trace w @ evs \<and> list_all (concerns k) evs \<and> explained None evs"
  using assms completionCheck_tidy [of env k jobState url kj w r w']
  by (auto simp: timeoutOrCompletion_def effects split: option.splits if_splits)

lemma terminateAndCleanUp_tidy:
  "\<exists>evs. trace (terminateAndCleanUp env k err w) = trace w @ evs \<and> list_all (concerns k) evs \<and> explained None evs"
  by (auto simp: terminateAndCleanUp_def effects split: option.splits)

lemma withJobSpec_tidy:
  assumes "withJobSpec env k jobState url kj w = (r, w')"
  shows "\<exists>evs. trace w' = trace w @ evs \<and> list_all (concerns k) evs \<and> explained None evs"
proof (cases "inProgressJobSpecMap w (ID k)")
  case (Some jobSpec)
  with assms timeoutOrCompletion_tidy [of env k jobState url kj jobSpec w r w'] show ?thesis
    by (simp add: withJobSpec_def)
next
  case None
  show ?thesis
  proof (cases "ext_downloadJobSpec env k")
    case (Inl err)
    with None assms terminateAndCleanUp_tidy [of env k err w] show ?thesis
      by (auto simp: withJobSpec_def)
  next
    case (Inr jobSpec)
    with None assms
      timeoutOrCompletion_tidy [of env k jobState url kj jobSpec
        "w\<lparr>inProgressJobSpecMap := (inProgressJobSpecMap w)(ID k \<mapsto> jobSpec)\<rparr>" r w']
    show ?thesis by (simp add: withJobSpec_def)
  qed
qed

lemma handleJob_tidy:
  assumes "handleJob env v k w = (r, w')"
  shows "\<exists>evs. trace w' = trace w @ evs \<and> list_all (concerns k) evs \<and> explained None evs"
proof (cases "ext_GetJobState env k")
  case (Inl err)
  with assms terminateAndCleanUp_tidy [of env k err w] show ?thesis
    by (auto simp: handleJob_def)
next
  case (Inr jobState)
  show ?thesis
  proof (cases "IsInProgress (Status jobState)")
    case False
    with Inr assms show ?thesis by (auto simp: handleJob_def effects)
  next
    case True
    let ?queueURL = "if strset_Has (queueJobIDSet v) (ID k)
                      then Some (mapGet (queueURLMap v) (ID k)) else None"
    let ?k8sJob = "deref (heap v) (k8sJobMap v (ID k))"
    obtain newStatusCode msg err where rc: "reconcileInProgressJob env jobState ?queueURL ?k8sJob = (newStatusCode, msg, err)"
      by (cases "reconcileInProgressJob env jobState ?queueURL ?k8sJob")
    show ?thesis
    proof (cases err)
      case (Some e)
      with Inr True rc assms show ?thesis
        by (auto simp: handleJob_def effects)
    next
      case None
      define w2 where "w2 = (if newStatusCode \<noteq> Status jobState
          then w\<lparr>trace := trace w @ [LogWrite k [msg], StatusWrite k newStatusCode]\<rparr> else w)"
      have w2: "\<exists>evs. trace w2 = trace w @ evs \<and> list_all (concerns k) evs \<and> explained None evs"
        by (auto simp: w2_def)
      have rep: "\<exists>evs. trace (reportError e w2) = trace w @ evs \<and> list_all (concerns k) evs \<and> explained None evs" for e
      proof -
        from w2 obtain evs where "trace w2 = trace w @ evs" "list_all (concerns k) evs" "explained None evs" by blast
        moreover from this have "explained None (evs @ [ErrorReport e])" by (intro explained_append) auto
        ultimately show ?thesis by (auto simp: effects)
      qed
      have wj: "\<exists>evs. trace w' = trace w @ evs \<and> list_all (concerns k) evs \<and> explained None evs"
        if "withJobSpec env k jobState url ?k8sJob w2 = (r, w')" for url
      proof -
        from w2 obtain evs where e1: "trace w2 = trace w @ evs" "list_all (concerns k) evs" "explained None evs" by blast
        from withJobSpec_tidy [OF that] obtain evs2 where
          e2: "trace w' = trace w2 @ evs2" "list_all (concerns k) evs2" "explained None evs2" by blast
        from e1 e2 have "explained None (evs @ evs2)" by (intro explained_append)
        with e1 e2 show ?thesis by auto
      qed
      from Inr True rc None assms have
        "(r, w') = (case (if newStatusCode \<noteq> Status jobState then
                             (FirstError [ext_writeToJobLogStream env k [msg], ext_SetStatusForJob env k newStatusCode], w2)
                           else (None, w2)) of
                       (Some err, w2) \<Rightarrow> (Returns (), reportError err w2)
                     | (None, w2) \<Rightarrow>
                         (case ?queueURL of
                            None \<Rightarrow> (Returns (), w2)
                          | Some url \<Rightarrow> withJobSpec env k jobState url ?k8sJob w2))"
        by (auto simp: handleJob_def w2_def writeToJobLogStream_def SetStatusForJob_def emit_def split: if_splits)
      then show ?thesis
        using w2 rep wj by (auto split: if_splits option.splits)
    qed
  qed
qed

lemma handleJob_grows: "handleJob env v k w = (r, w') \<Longrightarrow> \<exists>evs. trace w' = trace w @ evs"
  using handleJob_tidy by blast

lemma handleJob_terminal:
  assumes "ext_GetJobState env jobKey = Inr jobState" and "\<not> IsInProgress (Status jobState)"
  shows "handleJob env v jobKey w =
           (Returns (), w\<lparr>trace := trace w @ [InProgressFileDelete jobKey, RuntimeDelete jobKey]\<rparr>)"
  using assms by (simp add: handleJob_def effects)

subsection \<open>Loops\<close>

lemma forEach_segments:
  assumes body: "\<And>x w r w'. x \<in> set xs \<Longrightarrow> body x w = (r, w') \<Longrightarrow> \<exists>evs. trace w' = trace w @ evs \<and> Q evs"
    and nil: "Q []"
    and app: "\<And>as bs. Q as \<Longrightarrow> Q bs \<Longrightarrow> Q (as @ bs)"
    and run: "forEach body xs w = (r, w')"
  shows "\<exists>evs. trace w' = trace w @ evs \<and> Q evs"
  using body run
proof (induction xs arbitrary: w)
  case Nil
  with nil show ?case by auto
next
  case (Cons x xs)
  obtain r1 w1 where b: "body x w = (r1, w1)" by (cases "body x w")
  from Cons.prems(1) [OF _ b] obtain evs1 where e1: "trace w1 = trace w @ evs1" "Q evs1" by auto
  show ?case
  proof (cases r1)
    case Panics
    with b Cons.prems(2) e1 show ?thesis by auto
  next
    case (Returns u)
    with b Cons.prems(2) have run1: "forEach body xs w1 = (r, w')" by simp
    have sub: "\<exists>evs. trace w0' = trace w0 @ evs \<and> Q evs"
      if "y \<in> set xs" "body y w0 = (r0, w0')" for y w0 r0 w0'
      using Cons.prems(1) [of y w0 r0 w0'] that by simp
    have "\<exists>evs2. trace w' = trace w1 @ evs2 \<and> Q evs2"
      by (rule Cons.IH [OF _ run1]) (rule sub, assumption+)
    then obtain evs2 where e2: "trace w' = trace w1 @ evs2" "Q evs2"
      by auto
    from e1 e2 app show ?thesis by auto
  qed
qed

lemma forEach_grows:
  assumes "\<And>x w r w'. body x w = (r, w') \<Longrightarrow> \<exists>evs. trace w' = trace w @ evs"
    and "forEach body xs w = (r, w')"
  shows "\<exists>evs. trace w' = trace w @ evs"
proof -
  have "\<exists>evs. trace w' = trace w @ evs \<and> True"
    by (rule forEach_segments [where Q = "\<lambda>evs. True", OF _ _ _ assms(2)]) (use assms(1) in auto)
  then show ?thesis by simp
qed

lemma forEach_emits:
  assumes grow: "\<And>y w r w1. body y w = (r, w1) \<Longrightarrow> \<exists>evs. trace w1 = trace w @ evs"
    and hit: "\<And>w r w1. body x w = (r, w1) \<Longrightarrow> e \<in> set (newEvents w w1)"
    and run: "forEach body xs w = (Returns u, w')"
    and mem: "x \<in> set xs"
  shows "e \<in> set (newEvents w w')"
  using run mem
proof (induction xs arbitrary: w)
  case Nil
  then show ?case by simp
next
  case (Cons y ys)
  obtain r1 w1 where b: "body y w = (r1, w1)" by (cases "body y w")
  with Cons.prems(1) obtain u1 where r1: "r1 = Returns u1" and rest: "forEach body ys w1 = (Returns u, w')"
    by (cases r1) auto
  from grow [OF b] obtain e1 where e1: "trace w1 = trace w @ e1" by blast
  have "True \<and> (\<exists>evs. trace w' = trace w1 @ evs \<and> True)"
    using forEach_segments [of ys body "\<lambda>evs. True" w1 "Returns u" w'] grow rest by blast
  then obtain e2 where e2: "trace w' = trace w1 @ e2" by blast
  show ?case
  proof (cases "x = y")
    case True
    with hit [OF b [folded True]] e1 e2 show ?thesis
      by (auto simp: newEvents_def)
  next
    case False
    with Cons.prems(2) have "x \<in> set ys" by simp
    from Cons.IH [OF rest this] e1 e2 show ?thesis by (auto simp: newEvents_def)
  qed
qed

subsection \<open>The three views\<close>

lemma set_strset_Add: "set (strset_Add s x) = insert x (set s)"
  by (auto simp: strset_Add_def)

lemma set_inProgressLoop_aux:
  "set (fold (\<lambda>jobKey s. strset_Add s (ID jobKey)) keys s0) = set s0 \<union> ID ` set keys"
  by (induction keys arbitrary: s0) (auto simp: set_strset_Add)

lemma set_inProgressLoop: "set (inProgressLoop keys) = ID ` set keys"
  by (simp add: inProgressLoop_def set_inProgressLoop_aux)

lemma queueLoop_aux:
  assumes "queueLoop env queues (m0, s0) = (m, s)"
    and "\<And>x. x \<in> set s0 \<Longrightarrow> \<exists>url. m0 x = Some url \<and> ID (ext_jobKeyFromQueueURL env url) = x"
    and "x \<in> set s"
  shows "\<exists>url. m x = Some url \<and> ID (ext_jobKeyFromQueueURL env url) = x"
  using assms
proof (induction queues arbitrary: m0 s0)
  case Nil
  then show ?case by simp
next
  case (Cons q queues)
  let ?m1 = "m0(ID (ext_jobKeyFromQueueURL env q) \<mapsto> q)"
  let ?s1 = "strset_Add s0 (ID (ext_jobKeyFromQueueURL env q))"
  from Cons.prems(1) have f: "queueLoop env queues (?m1, ?s1) = (m, s)"
    by (simp add: Let_def)
  have inv: "\<exists>url. ?m1 y = Some url \<and> ID (ext_jobKeyFromQueueURL env url) = y" if "y \<in> set ?s1" for y
    using that Cons.prems(2) [of y] by (auto simp: set_strset_Add)
  show ?case by (rule Cons.IH [OF f inv Cons.prems(3)])
qed

lemma queueURLMap_gatherViews:
  assumes "x \<in> set (queueJobIDSet (gatherViews env keys queues jobs))"
  shows "ID (ext_jobKeyFromQueueURL env (mapGet (queueURLMap (gatherViews env keys queues jobs)) x)) = x"
proof -
  obtain m s where q: "queueLoop env queues (Map.empty, []) = (m, s)"
    by (cases "queueLoop env queues (Map.empty, [])")
  then have v: "queueURLMap (gatherViews env keys queues jobs) = m" "queueJobIDSet (gatherViews env keys queues jobs) = s"
    by (auto simp: gatherViews_def split: prod.splits)
  from queueLoop_aux [OF q, of x] assms v obtain url where "m x = Some url" "ID (ext_jobKeyFromQueueURL env url) = x"
    by auto
  with v show ?thesis by (simp add: mapGet_def)
qed

lemma k8sJobLoop_aux:
  "k8sJobLoop jobs (hp0, m0, s0) = (hp, m, s) \<Longrightarrow> jobs \<noteq> [] \<Longrightarrow>
     hp kJob_addr = Some (last jobs)
   \<and> (\<forall>x. m x = (if x \<in> (\<lambda>job. mapGet (Labels job) ''jobID'') ` set jobs then Some kJob_addr else m0 x))
   \<and> set s = set s0 \<union> (\<lambda>job. mapGet (Labels job) ''jobID'') ` set jobs"
proof (induction jobs arbitrary: hp0 m0 s0)
  case Nil
  then show ?case by simp
next
  case (Cons job jobs)
  let ?l = "mapGet (Labels job) ''jobID''"
  from Cons.prems(1) have step: "k8sJobLoop jobs (hp0(kJob_addr \<mapsto> job), m0(?l \<mapsto> kJob_addr), strset_Add s0 ?l) = (hp, m, s)"
    by (simp add: Let_def)
  show ?case
  proof (cases jobs)
    case Nil
    with step have "hp = hp0(kJob_addr \<mapsto> job)" "m = m0(?l \<mapsto> kJob_addr)" "s = strset_Add s0 ?l"
      by simp_all
    with Nil show ?thesis by (simp add: set_strset_Add)
  next
    case (Cons j js)
    then have ne: "jobs \<noteq> []" by simp
    from Cons.IH [OF step ne] ne show ?thesis by (auto simp: set_strset_Add)
  qed
qed

lemma k8sJobMap_gatherViews:
  assumes "jobs \<noteq> []"
  shows "heap (gatherViews env keys queues jobs) kJob_addr = Some (last jobs)"
    and "k8sJobMap (gatherViews env keys queues jobs) x
           = (if x \<in> (\<lambda>job. mapGet (Labels job) ''jobID'') ` set jobs then Some kJob_addr else None)"
    and "set (k8sJobIDSet (gatherViews env keys queues jobs)) = (\<lambda>job. mapGet (Labels job) ''jobID'') ` set jobs"
proof -
  obtain hp m s where k: "k8sJobLoop jobs (Map.empty, Map.empty, []) = (hp, m, s)"
    by (cases "k8sJobLoop jobs (Map.empty, Map.empty, [])")
  then have v: "heap (gatherViews env keys queues jobs) = hp" "k8sJobMap (gatherViews env keys queues jobs) = m"
    "k8sJobIDSet (gatherViews env keys queues jobs) = s"
    by (auto simp: gatherViews_def split: prod.splits)
  from k8sJobLoop_aux [OF k assms] v
  show "heap (gatherViews env keys queues jobs) kJob_addr = Some (last jobs)"
    and "k8sJobMap (gatherViews env keys queues jobs) x
           = (if x \<in> (\<lambda>job. mapGet (Labels job) ''jobID'') ` set jobs then Some kJob_addr else None)"
    and "set (k8sJobIDSet (gatherViews env keys queues jobs)) = (\<lambda>job. mapGet (Labels job) ''jobID'') ` set jobs"
    by auto
qed

lemma k8sJobMap_empty:
  "k8sJobMap (gatherViews env keys queues []) x = None"
  "k8sJobIDSet (gatherViews env keys queues []) = []"
  by (auto simp: gatherViews_def split: prod.splits)

lemma deref_gatherViews:
  assumes "deref (heap (gatherViews env keys queues jobs)) (k8sJobMap (gatherViews env keys queues jobs) x) = Some kJob"
  shows "kJob = last jobs \<and> jobs \<noteq> [] \<and> mapGet (Labels kJob) ''jobID'' \<in> set (k8sJobIDSet (gatherViews env keys queues jobs))"
proof (cases jobs)
  case Nil
  with assms show ?thesis by (simp add: k8sJobMap_empty deref_def)
next
  case (Cons j js)
  then have ne: "jobs \<noteq> []" by simp
  from assms show ?thesis
    using k8sJobMap_gatherViews [OF ne, of env keys queues] ne
    by (auto simp: deref_def split: option.splits if_splits)
qed

lemma inProgressJobIDSet_gatherViews:
  "set (inProgressJobIDSet (gatherViews env keys queues jobs)) = ID ` set keys"
  by (auto simp: gatherViews_def set_inProgressLoop split: prod.splits)

lemma set_strset_Difference:
  "set (strset_Difference s others) = set s - \<Union> (set ` set others)"
  by (auto simp: strset_Difference_def strset_Has_def list_ex_iff)

lemma set_rangeOrder: "set (rangeOrder env s) = set s"
  by (simp add: rangeOrder_def)

subsection \<open>The pass\<close>

lemma orphanBatch_cleanup:
  assumes "orphanBatch env v x w = (r, w')"
  shows "(deref (heap v) (k8sJobMap v x) = None \<and> r = Panics \<and> w' = w)
       \<or> (\<exists>kJob evs. deref (heap v) (k8sJobMap v x) = Some kJob \<and> r = Returns () \<and>
             trace w' = trace w @ evs \<and>
             list_all (cleanup \<lparr>APIName = mapGet (Labels kJob) ''apiName'', ID = mapGet (Labels kJob) ''jobID''\<rparr>) evs)"
  using assms by (auto simp: orphanBatch_def effects Let_def split: option.splits)

lemma orphanBatch_grows: "orphanBatch env v x w = (r, w') \<Longrightarrow> \<exists>evs. trace w' = trace w @ evs"
  using orphanBatch_cleanup by fastforce

lemma orphanQueue_cleanup:
  assumes "orphanQueue env v x w = (r, w')"
  shows "r = Returns () \<and> (\<exists>evs. trace w' = trace w @ evs \<and>
           list_all (cleanup (ext_jobKeyFromQueueURL env (mapGet (queueURLMap v) x))) evs)"
  using assms
  by (cases "ext_GetAllQueueAttributes env (mapGet (queueURLMap v) x)")
     (auto simp: orphanQueue_def effects Let_def split: option.splits if_splits)

lemma orphanQueue_grows: "orphanQueue env v x w = (r, w') \<Longrightarrow> \<exists>evs. trace w' = trace w @ evs"
  using orphanQueue_cleanup by blast

lemma orphanQueue_events:
  assumes "orphanQueue env v jobID w = (r, w')"
  shows "r = Returns () \<and> (\<exists>errs dels. trace w' = trace w @ errs @ dels \<and>
           list_all (\<lambda>e. case e of ErrorReport err \<Rightarrow> True | _ \<Rightarrow> False) errs \<and>
           dels = (if time_Sub (ext_now env)
                        (queueCreatedTimestamp env (fst (ext_GetAllQueueAttributes env (mapGet (queueURLMap v) jobID))))
                        \<le> doesQueueExistGracePeriod then []
                   else RuntimeDelete (ext_jobKeyFromQueueURL env (mapGet (queueURLMap v) jobID))
                        # (case ext_deleteJobRuntimeResources env (ext_jobKeyFromQueueURL env (mapGet (queueURLMap v) jobID)) of
                             None \<Rightarrow> [] | Some e \<Rightarrow> [ErrorReport e])))"
  using assms
  apply (cases "ext_GetAllQueueAttributes env (mapGet (queueURLMap v) jobID)")
  apply (auto simp: orphanQueue_def effects split: option.splits if_splits)
  done

lemma reconcileAll_segments:
  assumes nil: "Q []" and app: "\<And>as bs. Q as \<Longrightarrow> Q bs \<Longrightarrow> Q (as @ bs)"
    and hj: "\<And>k w r w'. k \<in> set keys \<Longrightarrow> handleJob env v k w = (r, w') \<Longrightarrow>
               \<exists>evs. trace w' = trace w @ evs \<and> Q evs"
    and ob: "\<And>x w r w'. x \<in> set (k8sJobIDSet v) \<Longrightarrow> x \<notin> set (inProgressJobIDSet v) \<Longrightarrow>
               orphanBatch env v x w = (r, w') \<Longrightarrow> \<exists>evs. trace w' = trace w @ evs \<and> Q evs"
    and oq: "\<And>x w r w'. x \<in> set (queueJobIDSet v) \<Longrightarrow> x \<notin> set (k8sJobIDSet v) \<Longrightarrow>
               x \<notin> set (inProgressJobIDSet v) \<Longrightarrow>
               orphanQueue env v x w = (r, w') \<Longrightarrow> \<exists>evs. trace w' = trace w @ evs \<and> Q evs"
    and run: "reconcileAll env v keys w = (r, w')"
  shows "\<exists>evs. trace w' = trace w @ evs \<and> Q evs"
proof -
  let ?bs = "rangeOrder env (strset_Difference (k8sJobIDSet v) [inProgressJobIDSet v])"
  let ?qs = "rangeOrder env (strset_Difference (queueJobIDSet v) [k8sJobIDSet v, inProgressJobIDSet v])"
  obtain r1 w1 where l1: "forEach (handleJob env v) keys w = (r1, w1)"
    by (cases "forEach (handleJob env v) keys w")
  have "\<exists>evs. trace w1 = trace w @ evs \<and> Q evs"
    by (rule forEach_segments [where Q = Q, OF _ _ _ l1]) (erule (1) hj | rule nil | erule (1) app)+
  then obtain e1 where e1: "trace w1 = trace w @ e1" "Q e1" by blast
  show ?thesis
  proof (cases r1)
    case Panics
    with run l1 e1 show ?thesis by (auto simp: reconcileAll_def)
  next
    case (Returns u1)
    obtain r2 w2 where l2: "forEach (orphanBatch env v) ?bs w1 = (r2, w2)"
      by (cases "forEach (orphanBatch env v) ?bs w1")
    have "\<exists>evs. trace w2 = trace w1 @ evs \<and> Q evs"
    proof (rule forEach_segments [where Q = Q, OF _ _ _ l2])
      fix x w0 r0 w0'
      assume "x \<in> set ?bs" and b: "orphanBatch env v x w0 = (r0, w0')"
      then have "x \<in> set (k8sJobIDSet v)" "x \<notin> set (inProgressJobIDSet v)"
        by (auto simp: set_rangeOrder set_strset_Difference)
      then show "\<exists>evs. trace w0' = trace w0 @ evs \<and> Q evs" using b by (rule ob)
    qed (rule nil | erule (1) app)+
    then obtain e2 where e2: "trace w2 = trace w1 @ e2" "Q e2" by blast
    from e1(2) e2(2) have "Q (e1 @ e2)" by (rule app)
    with e1 e2 have q12: "trace w2 = trace w @ (e1 @ e2)" "Q (e1 @ e2)" by simp_all
    show ?thesis
    proof (cases r2)
      case Panics
      with run l1 l2 Returns q12 show ?thesis by (auto simp: reconcileAll_def)
    next
      case R2: (Returns u2)
      obtain r3 w3 where l3: "forEach (orphanQueue env v) ?qs w2 = (r3, w3)"
        by (cases "forEach (orphanQueue env v) ?qs w2")
      have "\<exists>evs. trace w3 = trace w2 @ evs \<and> Q evs"
      proof (rule forEach_segments [where Q = Q, OF _ _ _ l3])
        fix x w0 r0 w0'
        assume "x \<in> set ?qs" and b: "orphanQueue env v x w0 = (r0, w0')"
        then have "x \<in> set (queueJobIDSet v)" "x \<notin> set (k8sJobIDSet v)" "x \<notin> set (inProgressJobIDSet v)"
          by (auto simp: set_rangeOrder set_strset_Difference)
        then show "\<exists>evs. trace w0' = trace w0 @ evs \<and> Q evs" using b by (rule oq)
      qed (rule nil | erule (1) app)+
      then obtain e3 where e3: "trace w3 = trace w2 @ e3" "Q e3" by blast
      from q12(2) e3(2) have "Q ((e1 @ e2) @ e3)" by (rule app)
      with q12 e3 have q123: "trace w3 = trace w @ ((e1 @ e2) @ e3)" "Q ((e1 @ e2) @ e3)" by simp_all
      from run l1 l2 l3 Returns R2 have "trace w' = trace w3"
        by (auto simp: reconcileAll_def split: outcome.splits)
      with q123 show ?thesis by auto
    qed
  qed
qed

lemma ManageJobResources_segments:
  assumes nil: "Q []" and app: "\<And>as bs. Q as \<Longrightarrow> Q bs \<Longrightarrow> Q (as @ bs)"
    and all: "\<And>keys queues jobs w1 r w'.
               ext_ListAllInProgressJobKeys env = Inr keys \<Longrightarrow>
               ext_listQueueURLsForAllAPIs env = Inr queues \<Longrightarrow>
               ext_ListJobs env = Inr jobs \<Longrightarrow>
               reconcileAll env (gatherViews env keys queues jobs) keys w1 = (r, w') \<Longrightarrow>
               \<exists>evs. trace w' = trace w1 @ evs \<and> Q evs"
    and run: "ManageJobResources env w = (r, w')"
  shows "\<exists>evs. trace w' = trace w @ evs \<and> Q evs"
  using run nil
  by (auto simp: ManageJobResources_def Let_def split: sum.splits dest!: all)

lemma ManageJobResources_reconcileAll:
  assumes "ext_ListAllInProgressJobKeys env = Inr keys"
    and "ext_listQueueURLsForAllAPIs env = Inr queues"
    and "ext_ListJobs env = Inr jobs"
  shows "ManageJobResources env w =
           reconcileAll env (gatherViews env keys queues jobs) keys
             (w\<lparr>inProgressJobSpecMap := inProgressJobSpecMap w |` set (inProgressLoop keys)\<rparr>)"
  using assms by (simp add: ManageJobResources_def)

lemma reconcileAll_Returns:
  assumes "reconcileAll env v keys w = (Returns x, w')"
  shows "\<exists>w1 w2 w3.
           forEach (handleJob env v) keys w = (Returns (), w1)
         \<and> forEach (orphanBatch env v)
              (rangeOrder env (strset_Difference (k8sJobIDSet v) [inProgressJobIDSet v])) w1 = (Returns (), w2)
         \<and> forEach (orphanQueue env v)
              (rangeOrder env (strset_Difference (queueJobIDSet v) [k8sJobIDSet v, inProgressJobIDSet v])) w2
              = (Returns (), w3)
         \<and> w' = w3\<lparr>jobsToDelete := filter (strset_Has (inProgressJobIDSet v)) (jobsToDelete w3)\<rparr>
         \<and> x = None"
  using assms by (auto simp: reconcileAll_def split: prod.splits outcome.splits)

lemma ManageJobResources_completed:
  assumes "ext_ListAllInProgressJobKeys env = Inr keys"
    and "ManageJobResources env w = (Returns None, w')"
  shows "\<exists>queues jobs. ext_listQueueURLsForAllAPIs env = Inr queues \<and> ext_ListJobs env = Inr jobs"
  using assms by (auto simp: ManageJobResources_def Let_def split: sum.splits)

lemma reconcileAll_panics:
  "fst (handleJob env v k w) = Panics \<Longrightarrow> fst (reconcileAll env v (k # ks) w) = Panics"
  by (cases "handleJob env v k w") (simp add: reconcileAll_def)

lemma orphanQueue_deleted_in_pass:
  assumes lists: "ext_ListAllInProgressJobKeys env = Inr keys"
      "ext_listQueueURLsForAllAPIs env = Inr queues" "ext_ListJobs env = Inr jobs"
    and v: "v = gatherViews env keys queues jobs"
    and mem: "jobID \<in> set (strset_Difference (queueJobIDSet v) [k8sJobIDSet v, inProgressJobIDSet v])"
    and old: "\<not> time_Sub (ext_now env)
                 (queueCreatedTimestamp env (fst (ext_GetAllQueueAttributes env (mapGet (queueURLMap v) jobID))))
               \<le> doesQueueExistGracePeriod"
    and run: "ManageJobResources env w = (Returns None, w')"
  shows "RuntimeDelete (ext_jobKeyFromQueueURL env (mapGet (queueURLMap v) jobID)) \<in> set (newEvents w w')"
proof -
  let ?e = "RuntimeDelete (ext_jobKeyFromQueueURL env (mapGet (queueURLMap v) jobID))"
  let ?w0 = "w\<lparr>inProgressJobSpecMap := inProgressJobSpecMap w |` set (inProgressLoop keys)\<rparr>"
  from run ManageJobResources_reconcileAll [OF lists, of w] v
  have "reconcileAll env v keys ?w0 = (Returns None, w')" by simp
  from reconcileAll_Returns [OF this] obtain w1 w2 w3 where
    l1: "forEach (handleJob env v) keys ?w0 = (Returns (), w1)" and
    l2: "forEach (orphanBatch env v)
              (rangeOrder env (strset_Difference (k8sJobIDSet v) [inProgressJobIDSet v])) w1 = (Returns (), w2)" and
    l3: "forEach (orphanQueue env v)
              (rangeOrder env (strset_Difference (queueJobIDSet v) [k8sJobIDSet v, inProgressJobIDSet v])) w2
              = (Returns (), w3)" and
    w': "w' = w3\<lparr>jobsToDelete := filter (strset_Has (inProgressJobIDSet v)) (jobsToDelete w3)\<rparr>"
    by blast
  have "\<exists>evs. trace w1 = trace ?w0 @ evs"
    by (rule forEach_grows [OF _ l1]) (rule handleJob_grows)
  then obtain e1 where e1: "trace w1 = trace w @ e1" by auto
  have "\<exists>evs. trace w2 = trace w1 @ evs"
    by (rule forEach_grows [OF _ l2]) (rule orphanBatch_grows)
  then obtain e2 where e2: "trace w2 = trace w1 @ e2" by auto
  have "\<exists>evs. trace w3 = trace w2 @ evs"
    by (rule forEach_grows [OF _ l3]) (rule orphanQueue_grows)
  then obtain e3 where e3: "trace w3 = trace w2 @ e3" by auto
  have hit: "?e \<in> set (newEvents w0 w0')" if "orphanQueue env v jobID w0 = (r0, w0')" for w0 r0 w0'
    using orphanQueue_events [OF that] old by (auto simp: newEvents_def)
  have "?e \<in> set (newEvents w2 w3)"
  proof (rule forEach_emits [OF _ _ l3])
    show "jobID \<in> set (rangeOrder env (strset_Difference (queueJobIDSet v) [k8sJobIDSet v, inProgressJobIDSet v]))"
      using mem by (simp add: set_rangeOrder)
  qed (erule orphanQueue_grows hit)+
  with e1 e2 e3 w' show ?thesis by (simp add: newEvents_def)
qed

subsection \<open>The lines before a status\<close>

lemma explainedIn_quiet:
  "list_all (\<lambda>e. \<not> writesNeedy e) es \<Longrightarrow> explainedIn k before es"
proof (induction es arbitrary: before)
  case (Cons e es)
  then show ?case by (cases e) auto
qed simp

lemma explainedIn_append_quiet:
  "explainedIn k before as \<Longrightarrow> list_all (\<lambda>e. \<not> writesNeedy e) bs \<Longrightarrow> explainedIn k before (as @ bs)"
proof (induction as arbitrary: before)
  case Nil
  then show ?case by (simp add: explainedIn_quiet)
next
  case (Cons e as)
  then show ?case by (cases e) (auto split: if_splits)
qed

lemma explainedIn_lines_status:
  assumes "list_all (isLine k) (before @ ls)" and "before @ ls \<noteq> []"
    and "needsLine code"
    and "exactlyOneLine code \<Longrightarrow> length (before @ ls) = 1"
    and "list_all (\<lambda>e. \<not> writesNeedy e) tail"
  shows "explainedIn k before (ls @ StatusWrite k code # tail)"
  using assms
proof (induction ls arbitrary: before)
  case Nil
  then show ?case by (simp add: explainedIn_quiet)
next
  case (Cons l ls)
  from Cons.prems(1) obtain msgs where l: "l = LogWrite k msgs" by (cases l) auto
  have "explainedIn k (before @ [l]) (ls @ StatusWrite k code # tail)"
    using Cons.prems by (intro Cons.IH) auto
  with l show ?case by simp
qed

lemma investigateJobFailure_explainedIn:
  assumes "investigateJobFailure env k w = (err, w')"
  shows "\<exists>evs. trace w' = trace w @ evs \<and> explainedIn k [] evs"
proof -
  from investigateJobFailure_events [OF assms] obtain ls code where
    ls: "list_all (isLine k) ls" "ls \<noteq> []" "code = JobWorkerOOM \<or> code = JobWorkerError"
      "w' = w\<lparr>trace := trace w @ ls @ [StatusWrite k code, RuntimeDelete k]\<rparr>" by blast
  have "explainedIn k [] (ls @ StatusWrite k code # [RuntimeDelete k])"
    using ls by (intro explainedIn_lines_status) auto
  with ls show ?thesis by simp
qed

lemma checkIfJobCompleted_explainedIn:
  assumes "checkIfJobCompleted env k url kj w = (r, w')"
  shows "\<exists>evs. trace w' = trace w @ evs \<and> explainedIn k [] evs"
proof (cases kj)
  case None
  with assms show ?thesis by (simp add: checkIfJobCompleted_def)
next
  case (Some kJob)
  show ?thesis
  proof (cases "sint (Failed (Job_Status kJob)) > 0")
    case True
    obtain err w1 where i: "investigateJobFailure env k w = (err, w1)"
      by (cases "investigateJobFailure env k w")
    with assms Some True have "w' = w1" by (simp add: checkIfJobCompleted_def)
    with investigateJobFailure_explainedIn [OF i] show ?thesis by simp
  next
    case False
    with assms Some show ?thesis
      by (auto simp: checkIfJobCompleted_def effects split: sum.splits if_splits)
  qed
qed

lemma completionCheck_explainedIn:
  assumes "completionCheck env k jobState url kj w = (r, w')"
  shows "\<exists>evs. trace w' = trace w @ evs \<and> explainedIn k [] evs"
proof (cases "Status jobState = JobRunning")
  case False
  with assms show ?thesis by (simp add: completionCheck_def)
next
  case True
  obtain r1 w1 where c: "checkIfJobCompleted env k url kj w = (r1, w1)"
    by (cases "checkIfJobCompleted env k url kj w")
  from checkIfJobCompleted_explainedIn [OF c] obtain evs where
    evs: "trace w1 = trace w @ evs" "explainedIn k [] evs" by blast
  have "explainedIn k [] (evs @ [ErrorReport e])" for e
    using evs by (intro explainedIn_append_quiet) auto
  with assms True c evs show ?thesis
    by (auto simp: completionCheck_def effects split: outcome.splits option.splits)
qed

lemma timeoutOrCompletion_explainedIn:
  assumes "timeoutOrCompletion env k jobState url kj jobSpec w = (r, w')"
  shows "\<exists>evs. trace w' = trace w @ evs \<and> explainedIn k [] evs"
  using assms completionCheck_explainedIn [of env k jobState url kj w r w']
  by (auto simp: timeoutOrCompletion_def effects split: option.splits if_splits)

lemma terminateAndCleanUp_quiet:
  "\<exists>evs. trace (terminateAndCleanUp env k err w) = trace w @ evs \<and> list_all (\<lambda>e. \<not> writesNeedy e) evs"
  by (auto simp: terminateAndCleanUp_def effects split: option.splits)

lemma withJobSpec_explainedIn:
  assumes "withJobSpec env k jobState url kj w = (r, w')"
  shows "\<exists>evs. trace w' = trace w @ evs \<and> explainedIn k [] evs"
proof (cases "inProgressJobSpecMap w (ID k)")
  case (Some jobSpec)
  with assms timeoutOrCompletion_explainedIn [of env k jobState url kj jobSpec w r w'] show ?thesis
    by (simp add: withJobSpec_def)
next
  case None
  show ?thesis
  proof (cases "ext_downloadJobSpec env k")
    case (Inl err)
    with None assms terminateAndCleanUp_quiet [of env k err w] explainedIn_quiet [of _ k "[]"] show ?thesis
      by (auto simp: withJobSpec_def)
  next
    case (Inr jobSpec)
    with None assms
      timeoutOrCompletion_explainedIn [of env k jobState url kj jobSpec
        "w\<lparr>inProgressJobSpecMap := (inProgressJobSpecMap w)(ID k \<mapsto> jobSpec)\<rparr>" r w']
    show ?thesis by (simp add: withJobSpec_def)
  qed
qed

lemma withJobSpec_quiet:
  assumes "withJobSpec env k jobState url kj w = (r, w')"
    and "Status jobState \<noteq> JobRunning \<or> kj = None"
  shows "\<exists>evs. trace w' = trace w @ evs \<and> list_all (\<lambda>e. \<not> writesNeedy e) evs"
  using assms terminateAndCleanUp_quiet [of env k _ w]
  by (auto simp: withJobSpec_def timeoutOrCompletion_def completionCheck_def checkIfJobCompleted_def
        effects split: option.splits sum.splits if_splits)

lemma reconcile_changed:
  assumes "reconcileInProgressJob env jobState queueURL k8sJob = (new, msg, err)"
    and "new \<noteq> Status jobState"
  shows "exactlyOneLine new \<and> needsLine new \<and> (queueURL = None \<or> Status jobState \<noteq> JobRunning \<or> k8sJob = None)"
  using assms
  by (auto simp: reconcileInProgressJob_def Let_def split: if_splits sum.splits)


lemma handleJob_explainedIn:
  assumes "handleJob env v k w = (r, w')"
  shows "\<exists>evs. trace w' = trace w @ evs \<and> explainedIn k [] evs"
proof (cases "ext_GetJobState env k")
  case (Inl err)
  with assms terminateAndCleanUp_quiet [of env k err w] explainedIn_quiet [of _ k "[]"] show ?thesis
    by (auto simp: handleJob_def)
next
  case (Inr jobState)
  show ?thesis
  proof (cases "IsInProgress (Status jobState)")
    case False
    with Inr assms show ?thesis by (auto simp: handleJob_def effects)
  next
    case True
    let ?queueURL = "if strset_Has (queueJobIDSet v) (ID k)
                      then Some (mapGet (queueURLMap v) (ID k)) else None"
    let ?k8sJob = "deref (heap v) (k8sJobMap v (ID k))"
    obtain newStatusCode msg err where rc: "reconcileInProgressJob env jobState ?queueURL ?k8sJob = (newStatusCode, msg, err)"
      by (cases "reconcileInProgressJob env jobState ?queueURL ?k8sJob")
    show ?thesis
    proof (cases err)
      case (Some e)
      with Inr True rc assms show ?thesis
        by (auto simp: handleJob_def effects)
    next
      case None
      show ?thesis
      proof (cases "newStatusCode = Status jobState")
        case same: True
        with Inr True rc None assms have
          "(r, w') = (case ?queueURL of
                            None \<Rightarrow> (Returns (), w)
                          | Some url \<Rightarrow> withJobSpec env k jobState url ?k8sJob w)"
          by (auto simp: handleJob_def split: if_splits)
        then show ?thesis
          using withJobSpec_explainedIn [of env k jobState _ ?k8sJob w r w']
          by (auto split: if_splits)
      next
        case changed: False
        let ?w2 = "w\<lparr>trace := trace w @ [LogWrite k [msg], StatusWrite k newStatusCode]\<rparr>"
        from reconcile_changed [OF rc changed] have
          code: "exactlyOneLine newStatusCode" "needsLine newStatusCode"
          and quiet: "?queueURL = None \<or> Status jobState \<noteq> JobRunning \<or> ?k8sJob = None"
          by simp_all
        have tail: "explainedIn k [] ([LogWrite k [msg]] @ StatusWrite k newStatusCode # evs)"
          if "list_all (\<lambda>e. \<not> writesNeedy e) evs" for evs
          using code that by (intro explainedIn_lines_status) auto
        from Inr True rc None changed assms have run:
          "(case FirstError [ext_writeToJobLogStream env k [msg], ext_SetStatusForJob env k newStatusCode] of
                        Some err \<Rightarrow> (Returns (), reportError err ?w2)
                      | None \<Rightarrow>
                         (case ?queueURL of
                            None \<Rightarrow> (Returns (), ?w2)
                          | Some url \<Rightarrow> withJobSpec env k jobState url ?k8sJob ?w2)) = (r, w')"
          by (simp add: handleJob_def writeToJobLogStream_def SetStatusForJob_def emit_def)
        have "\<exists>evs. trace w' = trace ?w2 @ evs \<and> list_all (\<lambda>e. \<not> writesNeedy e) evs"
        proof (cases "FirstError [ext_writeToJobLogStream env k [msg], ext_SetStatusForJob env k newStatusCode]")
          case (Some e)
          with run show ?thesis by (auto simp: effects)
        next
          case noerr: None
          show ?thesis
          proof (cases ?queueURL)
            case None
            with run noerr show ?thesis by auto
          next
            case (Some url)
            with run noerr have wj: "withJobSpec env k jobState url ?k8sJob ?w2 = (r, w')" by simp
            from quiet Some have "Status jobState \<noteq> JobRunning \<or> ?k8sJob = None" by simp
            from withJobSpec_quiet [OF wj this] show ?thesis .
          qed
        qed
        then obtain evs where evs: "trace w' = trace ?w2 @ evs" "list_all (\<lambda>e. \<not> writesNeedy e) evs" by blast
        from tail [OF evs(2)] evs(1) show ?thesis by simp
      qed
    qed
  qed
qed

lemma ManageJobResources_explained:
  assumes "ManageJobResources env w = (r, w')"
  shows "trace w' = trace w @ newEvents w w' \<and> explained None (newEvents w w')"
proof -
  let ?Q = "explained None"
  have "\<exists>evs. trace w' = trace w @ evs \<and> ?Q evs"
  proof (rule ManageJobResources_segments [where Q = ?Q, OF _ _ _ assms])
    fix keys queues jobs w1 r1 w1'
    assume "reconcileAll env (gatherViews env keys queues jobs) keys w1 = (r1, w1')"
    then show "\<exists>evs. trace w1' = trace w1 @ evs \<and> ?Q evs"
    proof (rule reconcileAll_segments [where Q = ?Q, rotated -1])
      fix k w2 r2 w2'
      assume "handleJob env (gatherViews env keys queues jobs) k w2 = (r2, w2')"
      from handleJob_tidy [OF this] show "\<exists>evs. trace w2' = trace w2 @ evs \<and> ?Q evs" by blast
    next
      fix x w2 r2 w2'
      assume "orphanBatch env (gatherViews env keys queues jobs) x w2 = (r2, w2')"
      from orphanBatch_cleanup [OF this] cleanup_explained show "\<exists>evs. trace w2' = trace w2 @ evs \<and> ?Q evs"
        by fastforce
    next
      fix x w2 r2 w2'
      assume "orphanQueue env (gatherViews env keys queues jobs) x w2 = (r2, w2')"
      from orphanQueue_cleanup [OF this] cleanup_explained show "\<exists>evs. trace w2' = trace w2 @ evs \<and> ?Q evs"
        by fastforce
    qed (simp_all add: explained_append)
  qed (simp_all add: explained_append)
  then show ?thesis by (auto simp: newEvents_def)
qed

lemmas evals = ManageJobResources_def reconcileAll_def gatherViews_def inProgressLoop_def
  handleJob_def withJobSpec_def timeoutOrCompletion_def completionCheck_def checkIfJobCompleted_def
  reconcileInProgressJob_def orphanBatch_def orphanQueue_def rangeOrder_def timedOut_def
  strset_Has_def strset_Add_def strset_Remove_def strset_Difference_def
  deref_def kJob_addr_def mapGet_def lastUpdated_def time_Sub_def Duration_mul_def
  maxDuration_def minDuration_def time_Second_def doesQueueExistGracePeriod_def
  k8sJobExistenceGracePeriod_def enqueuingLivenessBuffer_def zeroTime_def time_Unix_def
  queueCreatedTimestamp_def terminateAndCleanUp_def investigateJobFailure_def newEvents_def

lemmas samples = sampleEnv_def sampleState_def sampleNow_def jobA_def batchA_def emptyWorld_def

section \<open>The claims\<close>

text \<open>
  Claim C1, as amended. A running job whose batch reports no failed worker, whose queue is
  observed empty, whose batch counts as many succeeded workers as the spec has workers and
  whose metrics count every batch as succeeded is finished by the first invocation of
  \<^verbatim>\<open>checkIfJobCompleted\<close>: it writes the status Succeeded, deletes the runtime resources
  and leaves the job's identifier out of \<^verbatim>\<open>_jobsToDelete\<close>, whether or not the identifier
  was in the set before. Nothing is deferred to a second invocation.
\<close>

theorem C1_succeeded_without_deferral:
  assumes "Failed (Job_Status kJob) = 0"
    and "ext_getQueueMetricsFromURL env queueURL = Inr queueMessages"
    and "IsEmpty queueMessages"
    and "ext_getRealTimeBatchMetrics env jobKey = Inr batchMetrics"
    and "ext_downloadJobSpec env jobKey = Inr jobSpec"
    and "Workers jobSpec = sint (Succeeded (Job_Status kJob))"
    and "TotalBatchCount jobSpec = Metrics_Succeeded batchMetrics"
  shows "checkIfJobCompleted env jobKey queueURL (Some kJob) w =
           (Returns (FirstError [ext_SetStatusForJob env jobKey JobSucceeded,
                                 ext_deleteJobRuntimeResources env jobKey]),
            w\<lparr>jobsToDelete := strset_Remove (jobsToDelete w) (ID jobKey),
              trace := trace w @ [StatusWrite jobKey JobSucceeded, RuntimeDelete jobKey]\<rparr>)
         \<and> \<not> strset_Has (jobsToDelete (snd (checkIfJobCompleted env jobKey queueURL (Some kJob) w))) (ID jobKey)"
  using assms by (simp add: checkIfJobCompleted_def effects strset_Has_def strset_Remove_def)

text \<open>The sample deployment meets every hypothesis of C1.\<close>

theorem C1_succeeded_without_deferral_witness:
  "checkIfJobCompleted sampleEnv jobA ''q-a'' (Some batchA) emptyWorld =
     (Returns None, emptyWorld\<lparr>trace := [StatusWrite jobA JobSucceeded, RuntimeDelete jobA]\<rparr>)"
  using C1_succeeded_without_deferral [of batchA sampleEnv "''q-a''" "\<lparr>IsEmpty = True\<rparr>" jobA
      "\<lparr>Metrics_Succeeded = 1000\<rparr>"
      "\<lparr>Workers = 4, TotalBatchCount = 1000, Timeout = None, StartTime = sampleNow - 100 * time_Second\<rparr>"
      emptyWorld]
  by (simp add: samples strset_Remove_def)

text \<open>
  Claim C1 as the spec states it fails on the sample deployment: the identifier is not in
  \<^verbatim>\<open>_jobsToDelete\<close> before the first invocation, and the first invocation does not add it;
  it writes the status and deletes the runtime resources at once.
\<close>

theorem C1_first_invocation_counterexample:
  "\<not> strset_Has (jobsToDelete emptyWorld) (ID jobA)
   \<and> \<not> strset_Has (jobsToDelete (snd (checkIfJobCompleted sampleEnv jobA ''q-a'' (Some batchA) emptyWorld))) (ID jobA)
   \<and> trace (snd (checkIfJobCompleted sampleEnv jobA ''q-a'' (Some batchA) emptyWorld))
       = [StatusWrite jobA JobSucceeded, RuntimeDelete jobA]"
  by (simp add: evals effects samples)

text \<open>
  Claim C2 does not hold of the code. For a running job whose queue is listed and whose
  batch is absent from the orchestrator's list, \<^verbatim>\<open>k8sJob\<close> is nil when the driver reaches
  \<^verbatim>\<open>checkIfJobCompleted\<close>, and the read of \<^verbatim>\<open>k8sJob.Status.Failed\<close> panics. Within
  \<^verbatim>\<open>_k8sJobExistenceGracePeriod\<close> the verifier returns the status unchanged before it looks
  at \<^verbatim>\<open>k8sJob\<close>; after it, the driver writes UnexpectedError and goes on, since only a
  write error or a nil \<^verbatim>\<open>queueURL\<close> makes it \<^verbatim>\<open>continue\<close>. The theorem covers both cases:
  the log stream and the state store accept the writes, and the job's spec (cached or
  downloaded) has no timeout.
\<close>

theorem C2_classifier_called_with_nil_batch:
  assumes "ext_GetJobState env jobKey = Inr jobState"
    and "Status jobState = JobRunning"
    and "strset_Has (queueJobIDSet v) (ID jobKey)"
    and "k8sJobMap v (ID jobKey) = None"
    and "\<forall>msgs. ext_writeToJobLogStream env jobKey msgs = None"
    and "ext_SetStatusForJob env jobKey JobUnexpectedError = None"
    and "(case inProgressJobSpecMap w (ID jobKey) of
            Some cached \<Rightarrow> Inr cached
          | None \<Rightarrow> ext_downloadJobSpec env jobKey) = Inr jobSpec"
    and "Timeout jobSpec = None"
  shows "fst (handleJob env v jobKey w) = Panics"
  using assms
  by (auto simp: handleJob_def reconcileInProgressJob_def withJobSpec_def timeoutOrCompletion_def
        completionCheck_def checkIfJobCompleted_def deref_def effects
      split: option.splits sum.splits)

text \<open>
  The sample deployment with an orchestrator that lists no batch: the pass panics on job
  \<open>a\<close>.
\<close>

theorem C2_classifier_called_with_nil_batch_witness:
  "fst (ManageJobResources envMissingBatch emptyWorld) = Panics"
proof -
  let ?v = "gatherViews envMissingBatch [jobA] [''q-a''] []"
  have "fst (handleJob envMissingBatch ?v jobA emptyWorld) = Panics"
    by (rule C2_classifier_called_with_nil_batch
          [where jobState = "sampleState jobA"
             and jobSpec = "\<lparr>Workers = 4, TotalBatchCount = 1000, Timeout = None,
                             StartTime = sampleNow - 100 * time_Second\<rparr>"])
       (simp_all add: envMissingBatch_def samples gatherViews_def strset_Has_def strset_Add_def)
  then have "fst (reconcileAll envMissingBatch ?v [jobA] emptyWorld) = Panics"
    by (rule reconcileAll_panics)
  moreover have "ManageJobResources envMissingBatch emptyWorld
                   = reconcileAll envMissingBatch ?v [jobA] emptyWorld"
    by (simp add: ManageJobResources_def envMissingBatch_def sampleEnv_def emptyWorld_def)
  ultimately show ?thesis by simp
qed

text \<open>
  Claim C3. When the state store answers a terminal status for a job, the pass's handling of
  the job is the deletion of the in-progress file and of the runtime resources, and nothing
  else; and no pass of \<^verbatim>\<open>ManageJobResources\<close> in which the store answers so writes any
  status for that job, from whatever state of the reconciler it starts.
\<close>

theorem C3_terminal_status_not_rewritten:
  assumes "ext_GetJobState env jobKey = Inr jobState"
    and "\<not> IsInProgress (Status jobState)"
  shows "handleJob env v jobKey w =
           (Returns (), w\<lparr>trace := trace w @ [InProgressFileDelete jobKey, RuntimeDelete jobKey]\<rparr>)
         \<and> (\<forall>code. StatusWrite jobKey code \<notin> set (newEvents w0 (snd (ManageJobResources env w0))))"
proof -
  let ?Q = "list_all (\<lambda>e. \<forall>code. e \<noteq> StatusWrite jobKey code)"
  obtain r w' where run: "ManageJobResources env w0 = (r, w')" by (cases "ManageJobResources env w0")
  have "\<exists>evs. trace w' = trace w0 @ evs \<and> ?Q evs"
  proof (rule ManageJobResources_segments [where Q = ?Q, OF _ _ _ run])
    fix keys queues jobs w1 r1 w1'
    assume "reconcileAll env (gatherViews env keys queues jobs) keys w1 = (r1, w1')"
    then show "\<exists>evs. trace w1' = trace w1 @ evs \<and> ?Q evs"
    proof (rule reconcileAll_segments [where Q = ?Q, rotated -1])
      fix k w2 r2 w2'
      assume h: "handleJob env (gatherViews env keys queues jobs) k w2 = (r2, w2')"
      show "\<exists>evs. trace w2' = trace w2 @ evs \<and> ?Q evs"
      proof (cases "k = jobKey")
        case True
        with h handleJob_terminal [OF assms, of "gatherViews env keys queues jobs" w2]
        have "trace w2' = trace w2 @ [InProgressFileDelete jobKey, RuntimeDelete jobKey]" by auto
        then show ?thesis by simp
      next
        case False
        with handleJob_tidy [OF h] concerns_other_no_status [of k _ jobKey] show ?thesis by blast
      qed
    next
      fix x w2 r2 w2'
      assume "orphanBatch env (gatherViews env keys queues jobs) x w2 = (r2, w2')"
      from orphanBatch_cleanup [OF this] cleanup_no_status show "\<exists>evs. trace w2' = trace w2 @ evs \<and> ?Q evs"
        by fastforce
    next
      fix x w2 r2 w2'
      assume "orphanQueue env (gatherViews env keys queues jobs) x w2 = (r2, w2')"
      from orphanQueue_cleanup [OF this] cleanup_no_status show "\<exists>evs. trace w2' = trace w2 @ evs \<and> ?Q evs"
        by fastforce
    qed simp_all
  qed simp_all
  with run have "?Q (newEvents w0 (snd (ManageJobResources env w0)))"
    by (auto simp: newEvents_def)
  then show ?thesis using handleJob_terminal [OF assms] by (auto simp: list_all_iff)
qed

text \<open>The sample deployment with job \<open>a\<close> stored as Succeeded.\<close>

theorem C3_terminal_status_not_rewritten_witness:
  "handleJob envTerminal (gatherViews envTerminal [jobA] [''q-a''] [batchA]) jobA emptyWorld =
     (Returns (), emptyWorld\<lparr>trace := [InProgressFileDelete jobA, RuntimeDelete jobA]\<rparr>)
   \<and> newEvents emptyWorld (snd (ManageJobResources envTerminal emptyWorld))
       = [InProgressFileDelete jobA, RuntimeDelete jobA]
   \<and> (\<forall>code. StatusWrite jobA code \<notin> set (newEvents emptyWorld (snd (ManageJobResources envTerminal emptyWorld))))"
  using C3_terminal_status_not_rewritten [of envTerminal jobA "(sampleState jobA)\<lparr>Status := JobSucceeded\<rparr>"
      "gatherViews envTerminal [jobA] [''q-a''] [batchA]" emptyWorld emptyWorld]
  by (simp add: envTerminal_def evals effects samples)

text \<open>
  Claim C4. A pass that runs to its end (it returns nil) leaves in \<^verbatim>\<open>_jobsToDelete\<close> only
  identifiers of the in-progress job keys it listed at its start.
\<close>

theorem C4_deferred_within_in_progress:
  assumes "ext_ListAllInProgressJobKeys env = Inr inProgressJobKeys"
    and "ManageJobResources env w = (Returns None, w')"
  shows "set (jobsToDelete w') \<subseteq> ID ` set inProgressJobKeys"
proof -
  from ManageJobResources_completed [OF assms] obtain queues jobs where
    l: "ext_listQueueURLsForAllAPIs env = Inr queues" "ext_ListJobs env = Inr jobs" by blast
  let ?v = "gatherViews env inProgressJobKeys queues jobs"
  from assms(2) ManageJobResources_reconcileAll [OF assms(1) l]
  obtain w0 where "reconcileAll env ?v inProgressJobKeys w0 = (Returns None, w')" by auto
  from reconcileAll_Returns [OF this] obtain w3 where
    "w' = w3\<lparr>jobsToDelete := filter (strset_Has (inProgressJobIDSet ?v)) (jobsToDelete w3)\<rparr>" by blast
  then have "set (jobsToDelete w') \<subseteq> set (inProgressJobIDSet ?v)"
    by (auto simp: strset_Has_def)
  then show ?thesis by (simp add: inProgressJobIDSet_gatherViews)
qed

text \<open>
  The sample deployment with lagging metrics, started with a stale identifier in the set:
  the pass defers job \<open>a\<close> and prunes the stale identifier.
\<close>

theorem C4_deferred_within_in_progress_witness:
  "jobsToDelete (snd (ManageJobResources envLaggingMetrics (emptyWorld\<lparr>jobsToDelete := [''gone'']\<rparr>))) = [''a'']
   \<and> set [''a''] \<subseteq> ID ` set [jobA]"
proof -
  have run: "ManageJobResources envLaggingMetrics (emptyWorld\<lparr>jobsToDelete := [''gone'']\<rparr>)
               = (Returns None,
                  \<lparr>jobsToDelete = [''a''],
                   inProgressJobSpecMap = [''a'' \<mapsto> \<lparr>Workers = 4, TotalBatchCount = 1000, Timeout = None,
                                               StartTime = sampleNow - 100 * time_Second\<rparr>],
                   trace = []\<rparr>)"
    by (simp add: envLaggingMetrics_def evals effects samples)
  have "ext_ListAllInProgressJobKeys envLaggingMetrics = Inr [jobA]"
    by (simp add: envLaggingMetrics_def sampleEnv_def)
  from C4_deferred_within_in_progress [OF this run] run show ?thesis by simp
qed

text \<open>
  Claim C5, as amended. The handling of one in-progress job in a pass (\<open>handleJob\<close>, the body
  of the loop of lines 99 to 191) explains the statuses UnexpectedError, EnqueueFailed,
  WorkerOOM and WorkerError before it writes them (\<open>explainedIn\<close>): when it writes
  UnexpectedError or EnqueueFailed, all it did before is to write exactly one line to the
  log stream of the job, in one call; when it writes WorkerOOM or WorkerError, all it did
  before is to write lines to the log stream of the job, at least one, each in a call of
  its own. And in the whole pass each write of such a status comes right after a call that
  writes one line to the log stream of the same job (\<open>explained\<close>). The statuses
  Succeeded, CompletedWithFailures and TimedOut are left out: the code writes no line for
  the first two, and writes the line of the third after the status and after the deletion
  of the runtime resources.
\<close>

theorem C5_error_status_follows_its_line:
  assumes "handleJob env v jobKey w = (r, w')"
    and "ManageJobResources env w0 = (r0, w0')"
  shows "trace w' = trace w @ newEvents w w'
       \<and> explainedIn jobKey [] (newEvents w w')
       \<and> trace w0' = trace w0 @ newEvents w0 w0'
       \<and> explained None (newEvents w0 w0')"
proof -
  from handleJob_explainedIn [OF assms(1)] have
    "trace w' = trace w @ newEvents w w' \<and> explainedIn jobKey [] (newEvents w w')"
    by (auto simp: newEvents_def)
  moreover from ManageJobResources_explained [OF assms(2)] have
    "trace w0' = trace w0 @ newEvents w0 w0' \<and> explained None (newEvents w0 w0')" .
  ultimately show ?thesis by simp
qed

text \<open>
  The sample deployment with no queue listed: the handling of job \<open>a\<close>, and the pass, write
  the line about the missing queue, then the status UnexpectedError.
\<close>

theorem C5_error_status_follows_its_line_witness:
  "newEvents emptyWorld (snd (handleJob envMissingQueue (gatherViews envMissingQueue [jobA] [] [batchA]) jobA emptyWorld))
     = [LogWrite jobA [''terminating job a (api api); sqs queue with url q-a was not found''],
        StatusWrite jobA JobUnexpectedError]
   \<and> explainedIn jobA []
        (newEvents emptyWorld (snd (handleJob envMissingQueue (gatherViews envMissingQueue [jobA] [] [batchA]) jobA emptyWorld)))
   \<and> newEvents emptyWorld (snd (ManageJobResources envMissingQueue emptyWorld))
     = [LogWrite jobA [''terminating job a (api api); sqs queue with url q-a was not found''],
        StatusWrite jobA JobUnexpectedError]
   \<and> explained None (newEvents emptyWorld (snd (ManageJobResources envMissingQueue emptyWorld)))"
proof -
  have one: "handleJob envMissingQueue (gatherViews envMissingQueue [jobA] [] [batchA]) jobA emptyWorld
               = (Returns (),
                  emptyWorld\<lparr>trace :=
                    [LogWrite jobA [''terminating job a (api api); sqs queue with url q-a was not found''],
                     StatusWrite jobA JobUnexpectedError]\<rparr>)"
    by (simp add: envMissingQueue_def evals effects samples)
  have run: "ManageJobResources envMissingQueue emptyWorld
               = (Returns None,
                  emptyWorld\<lparr>trace :=
                    [LogWrite jobA [''terminating job a (api api); sqs queue with url q-a was not found''],
                     StatusWrite jobA JobUnexpectedError]\<rparr>)"
    by (simp add: envMissingQueue_def evals effects samples)
  from C5_error_status_follows_its_line [OF one run] one run show ?thesis
    by (simp add: newEvents_def emptyWorld_def)
qed

text \<open>
  Claim C5 as the spec states it fails. On the sample deployment the pass moves job \<open>a\<close> to
  Succeeded and writes no line at all to its log stream. With a timeout of 60 seconds and a
  start 120 seconds ago, the pass writes the status TimedOut first and the line last. With
  one failed worker and a pod of two terminated containers, the pass writes two lines
  before the status WorkerError.
\<close>

theorem C5_terminal_without_line_counterexample:
  "newEvents emptyWorld (snd (ManageJobResources sampleEnv emptyWorld))
     = [StatusWrite jobA JobSucceeded, RuntimeDelete jobA]
   \<and> linesFor jobA (newEvents emptyWorld (snd (ManageJobResources sampleEnv emptyWorld))) = 0
   \<and> newEvents emptyWorld (snd (ManageJobResources envTimeout emptyWorld))
     = [StatusWrite jobA JobTimedOut, RuntimeDelete jobA,
        LogWrite jobA [''terminating job after exceeding the specified timeout of 60 seconds'']]
   \<and> newEvents emptyWorld (snd (ManageJobResources envTwoContainers emptyWorld))
     = [LogWrite jobA [''at least one worker had status Failed and terminated for reason error (exit_code=1)''],
        LogWrite jobA [''at least one worker had status Failed and terminated for reason completed (exit_code=0)''],
        StatusWrite jobA JobWorkerError, RuntimeDelete jobA]"
  by (simp add: envTimeout_def envTwoContainers_def linesFor_def evals effects samples Sprintf_d_def
        digits.simps digitChar_def terminationLine_def strings_ToLower_def ToLower_char_def isASCII_def)

text \<open>
  Claim C6, as amended. For a running job whose queue is not listed and whose Enqueuing
  timestamp is older than \<^verbatim>\<open>_doesQueueExistGracePeriod\<close>, the pass's handling of the job
  writes the line that the queue was not found and then the status UnexpectedError, and
  that is all it does in this pass: it reaches \<^verbatim>\<open>continue\<close> at the nil \<^verbatim>\<open>queueURL\<close> and
  deletes nothing. The runtime resources are deleted by the handling of the job in a pass
  that finds the status UnexpectedError in the state store.
\<close>

theorem C6_missing_queue_status_then_cleanup:
  assumes "ext_GetJobState env jobKey = Inr jobState"
    and "Status jobState = JobRunning"
    and "\<not> strset_Has (queueJobIDSet v) (ID jobKey)"
    and "ext_now env - lastUpdated jobState (ext_JobCode_String env JobEnqueuing) > doesQueueExistGracePeriod"
    and "ext_getJobQueueURL env (State_JobKey jobState) = Inr url"
    and "msg = ''terminating job '' @ ext_UserString env (State_JobKey jobState)
                 @ ''; sqs queue with url '' @ url @ '' was not found''"
    and "ext_GetJobState env2 jobKey = Inr jobState2"
    and "Status jobState2 = JobUnexpectedError"
  shows "fst (handleJob env v jobKey w) = Returns ()
       \<and> newEvents w (snd (handleJob env v jobKey w))
           = [LogWrite jobKey [msg], StatusWrite jobKey JobUnexpectedError]
             @ (case FirstError [ext_writeToJobLogStream env jobKey [msg],
                                 ext_SetStatusForJob env jobKey JobUnexpectedError] of
                  None \<Rightarrow> [] | Some err \<Rightarrow> [ErrorReport err])
       \<and> handleJob env2 v2 jobKey w2
           = (Returns (), w2\<lparr>trace := trace w2 @ [InProgressFileDelete jobKey, RuntimeDelete jobKey]\<rparr>)"
proof -
  from assms(4) have late: "\<not> time_Sub (ext_now env) (lastUpdated jobState (ext_JobCode_String env JobEnqueuing))
                             \<le> doesQueueExistGracePeriod"
    by (simp add: time_Sub_le grace_bounds)
  from assms(1,2,3,5,6) late
  have "fst (handleJob env v jobKey w) = Returns ()
       \<and> newEvents w (snd (handleJob env v jobKey w))
           = [LogWrite jobKey [msg], StatusWrite jobKey JobUnexpectedError]
             @ (case FirstError [ext_writeToJobLogStream env jobKey [msg],
                                 ext_SetStatusForJob env jobKey JobUnexpectedError] of
                  None \<Rightarrow> [] | Some err \<Rightarrow> [ErrorReport err])"
    by (auto simp: handleJob_def reconcileInProgressJob_def effects newEvents_def split: option.splits)
  moreover from assms(7,8) have "handleJob env2 v2 jobKey w2
           = (Returns (), w2\<lparr>trace := trace w2 @ [InProgressFileDelete jobKey, RuntimeDelete jobKey]\<rparr>)"
    by (intro handleJob_terminal) auto
  ultimately show ?thesis by simp
qed

text \<open>
  The sample deployment with no queue listed, and then with the status UnexpectedError in
  the state store.
\<close>

theorem C6_missing_queue_status_then_cleanup_witness:
  "fst (handleJob envMissingQueue (gatherViews envMissingQueue [jobA] [] [batchA]) jobA emptyWorld) = Returns ()
   \<and> newEvents emptyWorld
        (snd (handleJob envMissingQueue (gatherViews envMissingQueue [jobA] [] [batchA]) jobA emptyWorld))
       = [LogWrite jobA [''terminating job a (api api); sqs queue with url q-a was not found''],
          StatusWrite jobA JobUnexpectedError]
   \<and> handleJob envUnexpectedError (gatherViews envUnexpectedError [jobA] [] [batchA]) jobA emptyWorld
       = (Returns (), emptyWorld\<lparr>trace := [InProgressFileDelete jobA, RuntimeDelete jobA]\<rparr>)"
  using C6_missing_queue_status_then_cleanup
    [of envMissingQueue jobA "sampleState jobA" "gatherViews envMissingQueue [jobA] [] [batchA]" "''q-a''"
        "''terminating job a (api api); sqs queue with url q-a was not found''"
        envUnexpectedError "(sampleState jobA)\<lparr>Status := JobUnexpectedError\<rparr>"
        emptyWorld "gatherViews envUnexpectedError [jobA] [] [batchA]" emptyWorld]
  by (simp add: envMissingQueue_def envUnexpectedError_def gatherViews_def inProgressLoop_def
        strset_Has_def strset_Add_def lastUpdated_def doesQueueExistGracePeriod_def time_Second_def
        samples)

text \<open>
  Claim C6 as the spec states it fails: the pass over the sample deployment with no queue
  listed writes the status UnexpectedError and does not delete the runtime resources.
\<close>

theorem C6_no_delete_in_same_pass_counterexample:
  "StatusWrite jobA JobUnexpectedError \<in> set (trace (snd (ManageJobResources envMissingQueue emptyWorld)))
   \<and> RuntimeDelete jobA \<notin> set (trace (snd (ManageJobResources envMissingQueue emptyWorld)))"
  by (simp add: envMissingQueue_def evals effects samples)

text \<open>
  Claim C7 does not hold of the code in one point, the text of the line. When the first pod
  listed for the job was killed for lack of memory, \<^verbatim>\<open>investigateJobFailure\<close> writes one
  line, then the status WorkerOOM, then deletes the runtime resources; but the line reads
  ``ran out of out of memory'', not ``ran out of memory''.
\<close>

theorem C7_oom_line_repeats_out_of:
  assumes "ext_ListPodsByLabel env ''jobID'' (ID jobKey) = pod # pods"
    and "ext_WasPodOOMKilled env pod"
  shows "investigateJobFailure env jobKey w =
           (FirstError [ext_writeToJobLogStream env jobKey
                          [''at least one worker was killed because it ran out of out of memory''],
                        ext_SetStatusForJob env jobKey JobWorkerOOM,
                        ext_deleteJobRuntimeResources env jobKey],
            w\<lparr>trace := trace w @
               [LogWrite jobKey [''at least one worker was killed because it ran out of out of memory''],
                StatusWrite jobKey JobWorkerOOM,
                RuntimeDelete jobKey]\<rparr>)
         \<and> ''at least one worker was killed because it ran out of out of memory''
             \<noteq> ''at least one worker was killed because it ran out of memory''"
  using assms by (simp add: investigateJobFailure_def effects)

text \<open>The sample deployment with one pod, killed for lack of memory.\<close>

theorem C7_oom_line_repeats_out_of_witness:
  "investigateJobFailure envOOM jobA emptyWorld =
     (None,
      emptyWorld\<lparr>trace :=
         [LogWrite jobA [''at least one worker was killed because it ran out of out of memory''],
          StatusWrite jobA JobWorkerOOM,
          RuntimeDelete jobA]\<rparr>)"
  using C7_oom_line_repeats_out_of
    [of envOOM jobA "\<lparr>Pod_Name = ''oom'', ContainerStatuses = []\<rparr>" "[]" emptyWorld]
  by (simp add: envOOM_def samples)

text \<open>
  Claim C8, as amended, with two conditions that the spec does not state. Let \<open>jobID\<close> be in
  the set the loop of line 206 ranges over: a queue is listed for it, no batch, and it is
  not in progress. First condition: \<^verbatim>\<open>ParseInt64\<close> reads a number of seconds, \<open>created\<close>, in
  the \<^verbatim>\<open>CreatedTimestamp\<close> of the attributes that \<^verbatim>\<open>GetAllQueueAttributes\<close> answers for the
  queue. Second condition: the pass runs to its end and returns nil. Then, if the queue is
  older than \<^verbatim>\<open>_doesQueueExistGracePeriod\<close>, the pass deletes the runtime resources of the
  queue's job key; otherwise no write, deletion or log line of the whole pass touches a key
  of that identifier.
\<close>

theorem C8_orphan_queue_grace_period:
  assumes "ext_ListAllInProgressJobKeys env = Inr inProgressJobKeys"
    and "ext_listQueueURLsForAllAPIs env = Inr queues"
    and "ext_ListJobs env = Inr jobs"
    and "v = gatherViews env inProgressJobKeys queues jobs"
    and "jobID \<in> set (strset_Difference (queueJobIDSet v) [k8sJobIDSet v, inProgressJobIDSet v])"
    and "url = mapGet (queueURLMap v) jobID"
    and "ext_ParseInt64 env (mapGet (fst (ext_GetAllQueueAttributes env url)) ''CreatedTimestamp'') = Some created"
    and "ManageJobResources env w = (Returns None, w')"
  shows "if ext_now env - time_Unix created > doesQueueExistGracePeriod
         then RuntimeDelete (ext_jobKeyFromQueueURL env url) \<in> set (newEvents w w')
         else list_all (\<lambda>e. \<not> touches jobID e) (newEvents w w')"
proof (cases "ext_now env - time_Unix created > doesQueueExistGracePeriod")
  case True
  from assms(7) have ts: "queueCreatedTimestamp env (fst (ext_GetAllQueueAttributes env url)) = time_Unix created"
    by (simp add: queueCreatedTimestamp_def)
  from True have "\<not> time_Sub (ext_now env) (time_Unix created) \<le> doesQueueExistGracePeriod"
    by (simp add: time_Sub_le grace_bounds)
  with ts assms(6) have "\<not> time_Sub (ext_now env)
                 (queueCreatedTimestamp env (fst (ext_GetAllQueueAttributes env (mapGet (queueURLMap v) jobID))))
               \<le> doesQueueExistGracePeriod" by simp
  from orphanQueue_deleted_in_pass [OF assms(1-5) this assms(8)] True assms(6) show ?thesis by simp
next
  case False
  from assms(7) have ts: "queueCreatedTimestamp env (fst (ext_GetAllQueueAttributes env url)) = time_Unix created"
    by (simp add: queueCreatedTimestamp_def)
  from False have young: "time_Sub (ext_now env) (time_Unix created) \<le> doesQueueExistGracePeriod"
    by (simp add: time_Sub_le grace_bounds)
  from assms(5) have mem: "jobID \<in> set (queueJobIDSet v)" "jobID \<notin> set (k8sJobIDSet v)"
      "jobID \<notin> set (inProgressJobIDSet v)"
    by (auto simp: set_strset_Difference)
  let ?Q = "list_all (\<lambda>e. \<not> touches jobID e)"
  let ?w0 = "w\<lparr>inProgressJobSpecMap := inProgressJobSpecMap w |` set (inProgressLoop inProgressJobKeys)\<rparr>"
  from assms(8) ManageJobResources_reconcileAll [OF assms(1-3), of w] assms(4)
  have "reconcileAll env v inProgressJobKeys ?w0 = (Returns None, w')" by simp
  then have "\<exists>evs. trace w' = trace ?w0 @ evs \<and> ?Q evs"
  proof (rule reconcileAll_segments [where Q = ?Q, rotated -1])
    fix k w2 r2 w2'
    assume k: "k \<in> set inProgressJobKeys" and h: "handleJob env v k w2 = (r2, w2')"
    from k mem(3) assms(4) have "ID k \<noteq> jobID"
      by (auto simp: inProgressJobIDSet_gatherViews)
    with handleJob_tidy [OF h] concerns_not_touches [of k _ jobID]
    show "\<exists>evs. trace w2' = trace w2 @ evs \<and> ?Q evs" by blast
  next
    fix x w2 r2 w2'
    assume b: "orphanBatch env v x w2 = (r2, w2')"
    from orphanBatch_cleanup [OF b] show "\<exists>evs. trace w2' = trace w2 @ evs \<and> ?Q evs"
    proof
      assume "deref (heap v) (k8sJobMap v x) = None \<and> r2 = Panics \<and> w2' = w2"
      then show ?thesis by simp
    next
      assume "\<exists>kJob evs. deref (heap v) (k8sJobMap v x) = Some kJob \<and> r2 = Returns () \<and>
             trace w2' = trace w2 @ evs \<and>
             list_all (cleanup \<lparr>APIName = mapGet (Labels kJob) ''apiName'', ID = mapGet (Labels kJob) ''jobID''\<rparr>) evs"
      then obtain kJob evs where d: "deref (heap v) (k8sJobMap v x) = Some kJob"
        and evs: "trace w2' = trace w2 @ evs"
          "list_all (cleanup \<lparr>APIName = mapGet (Labels kJob) ''apiName'', ID = mapGet (Labels kJob) ''jobID''\<rparr>) evs"
        by blast
      from d assms(4) deref_gatherViews [of env inProgressJobKeys queues jobs x kJob]
      have "mapGet (Labels kJob) ''jobID'' \<in> set (k8sJobIDSet v)" by auto
      with mem(2) have "mapGet (Labels kJob) ''jobID'' \<noteq> jobID" by auto
      with evs cleanup_not_touches [OF evs(2), of jobID] show ?thesis by auto
    qed
  next
    fix x w2 r2 w2'
    assume x: "x \<in> set (queueJobIDSet v)" and q: "orphanQueue env v x w2 = (r2, w2')"
    show "\<exists>evs. trace w2' = trace w2 @ evs \<and> ?Q evs"
    proof (cases "x = jobID")
      case True
      from orphanQueue_events [OF q] True ts young assms(6) reports_not_touches [of _ jobID]
      show ?thesis by auto
    next
      case False
      from x assms(4) queueURLMap_gatherViews [of x env inProgressJobKeys queues jobs]
      have "ID (ext_jobKeyFromQueueURL env (mapGet (queueURLMap v) x)) = x" by simp
      with False orphanQueue_cleanup [OF q]
        cleanup_not_touches [of "ext_jobKeyFromQueueURL env (mapGet (queueURLMap v) x)" _ jobID]
      show ?thesis by auto
    qed
  qed simp_all
  with False show ?thesis by (auto simp: newEvents_def)
qed

text \<open>
  An orphan queue created 10 seconds before the pass is left alone; the same queue, 70
  seconds old, is deleted.
\<close>

theorem C8_orphan_queue_grace_period_witness:
  "RuntimeDelete jobA \<in> set (newEvents emptyWorld (snd (ManageJobResources envOldOrphanQueue emptyWorld)))
   \<and> list_all (\<lambda>e. \<not> touches ''a'' e) (newEvents emptyWorld (snd (ManageJobResources envOrphanQueue emptyWorld)))"
proof -
  have old: "ManageJobResources envOldOrphanQueue emptyWorld = (Returns None, emptyWorld\<lparr>trace := [RuntimeDelete jobA]\<rparr>)"
    by (simp add: envOldOrphanQueue_def envOrphanQueue_def evals effects samples)
  have young: "ManageJobResources envOrphanQueue emptyWorld = (Returns None, emptyWorld)"
    by (simp add: envOrphanQueue_def evals effects samples)
  have "if ext_now envOldOrphanQueue - time_Unix 1599999990 > doesQueueExistGracePeriod
         then RuntimeDelete (ext_jobKeyFromQueueURL envOldOrphanQueue ''q-a'')
                \<in> set (newEvents emptyWorld (emptyWorld\<lparr>trace := [RuntimeDelete jobA]\<rparr>))
         else list_all (\<lambda>e. \<not> touches ''a'' e) (newEvents emptyWorld (emptyWorld\<lparr>trace := [RuntimeDelete jobA]\<rparr>))"
    by (rule C8_orphan_queue_grace_period
          [where inProgressJobKeys = "[]" and queues = "[''q-a'']" and jobs = "[]"
             and v = "gatherViews envOldOrphanQueue [] [''q-a''] []", OF _ _ _ _ _ _ _ old])
       (simp_all add: envOldOrphanQueue_def envOrphanQueue_def sampleEnv_def gatherViews_def
          inProgressLoop_def strset_Difference_def strset_Has_def strset_Add_def mapGet_def)
  moreover
  have "if ext_now envOrphanQueue - time_Unix 1599999990 > doesQueueExistGracePeriod
         then RuntimeDelete (ext_jobKeyFromQueueURL envOrphanQueue ''q-a'')
                \<in> set (newEvents emptyWorld emptyWorld)
         else list_all (\<lambda>e. \<not> touches ''a'' e) (newEvents emptyWorld emptyWorld)"
    by (rule C8_orphan_queue_grace_period
          [where inProgressJobKeys = "[]" and queues = "[''q-a'']" and jobs = "[]"
             and v = "gatherViews envOrphanQueue [] [''q-a''] []", OF _ _ _ _ _ _ _ young])
       (simp_all add: envOrphanQueue_def sampleEnv_def gatherViews_def
          inProgressLoop_def strset_Difference_def strset_Has_def strset_Add_def mapGet_def)
  ultimately show ?thesis
    using old young
    by (simp add: envOldOrphanQueue_def envOrphanQueue_def sampleEnv_def sampleNow_def time_Unix_def
          doesQueueExistGracePeriod_def time_Second_def jobA_def)
qed

text \<open>
  Claim C8 as the spec states it fails. The queue of \<open>a\<close> is an orphan created 10 seconds
  before the pass, within the grace period; the queue service refuses to give its
  attributes, the code reports the error and goes on with the zero time as the time of
  creation (lines 208 to 217 have no \<^verbatim>\<open>continue\<close>), and the pass deletes the runtime
  resources of \<open>a\<close>. And a pass that does not run to its end deletes nothing of an old
  orphan: the queue of \<open>b\<close> is 70 seconds old, the pass panics in the handling of job \<open>a\<close>,
  before the loop of line 206, and no event of the pass is about \<open>b\<close>.
\<close>

theorem C8_young_orphan_queue_deleted_counterexample:
  "''a'' \<in> set (strset_Difference (queueJobIDSet (gatherViews envUnreadableQueue [] [''q-a''] []))
                  [k8sJobIDSet (gatherViews envUnreadableQueue [] [''q-a''] []),
                   inProgressJobIDSet (gatherViews envUnreadableQueue [] [''q-a''] [])])
   \<and> fst (ext_GetAllQueueAttributes envOrphanQueue ''q-a'') ''CreatedTimestamp'' = Some ''1599999990''
   \<and> ext_now envUnreadableQueue - time_Unix 1599999990 = 10 * time_Second
   \<and> 10 * time_Second \<le> doesQueueExistGracePeriod
   \<and> ManageJobResources envUnreadableQueue emptyWorld
       = (Returns None, emptyWorld\<lparr>trace := [ErrorReport ''AccessDenied'', RuntimeDelete jobA]\<rparr>)
   \<and> ''b'' \<in> set (strset_Difference (queueJobIDSet (gatherViews envPanicBeforeGC [jobA] [''q-a'', ''q-b''] []))
                  [k8sJobIDSet (gatherViews envPanicBeforeGC [jobA] [''q-a'', ''q-b''] []),
                   inProgressJobIDSet (gatherViews envPanicBeforeGC [jobA] [''q-a'', ''q-b''] [])])
   \<and> ext_ParseInt64 envPanicBeforeGC
         (mapGet (fst (ext_GetAllQueueAttributes envPanicBeforeGC ''q-b'')) ''CreatedTimestamp'') = Some 1599999990
   \<and> ext_now envPanicBeforeGC - time_Unix 1599999990 = 70 * time_Second
   \<and> 70 * time_Second > doesQueueExistGracePeriod
   \<and> fst (ManageJobResources envPanicBeforeGC emptyWorld) = Panics
   \<and> newEvents emptyWorld (snd (ManageJobResources envPanicBeforeGC emptyWorld))
       = [LogWrite jobA [''terminating job a (api api); unable to find kubernetes job''],
          StatusWrite jobA JobUnexpectedError]"
  by (simp add: envUnreadableQueue_def envOrphanQueue_def envPanicBeforeGC_def envMissingBatch_def
        evals effects samples)

text \<open>
  Claim C9 does not hold of the code. Every entry of \<^verbatim>\<open>k8sJobMap\<close> holds the address of the
  loop variable \<^verbatim>\<open>kJob\<close>, and after the loop that variable holds the last batch of the
  list: the map gives the last batch for the \<^verbatim>\<open>jobID\<close> label of every batch.
\<close>

theorem C9_every_entry_is_the_last_batch:
  assumes "job \<in> set jobs"
    and "v = gatherViews env inProgressJobKeys queues jobs"
  shows "deref (heap v) (k8sJobMap v (mapGet (Labels job) ''jobID'')) = Some (last jobs)"
proof -
  from assms(1) have ne: "jobs \<noteq> []" by auto
  from k8sJobMap_gatherViews [OF ne, of env inProgressJobKeys queues] assms show ?thesis
    by (simp add: deref_def)
qed

text \<open>
  Two batches, of the jobs \<open>a\<close> and \<open>b\<close>: the entry of \<open>a\<close> gives the batch of \<open>b\<close>, whose
  counters differ.
\<close>

theorem C9_every_entry_is_the_last_batch_witness:
  "deref (heap (gatherViews sampleEnv [jobA] [''q-a''] [batchA, batchB]))
         (k8sJobMap (gatherViews sampleEnv [jobA] [''q-a''] [batchA, batchB]) ''a'') = Some batchB
   \<and> batchB \<noteq> batchA
   \<and> Failed (Job_Status batchB) \<noteq> Failed (Job_Status batchA)"
  using C9_every_entry_is_the_last_batch
    [of batchA "[batchA, batchB]" "gatherViews sampleEnv [jobA] [''q-a''] [batchA, batchB]"
        sampleEnv "[jobA]" "[''q-a'']"]
  by (auto simp: batchA_def batchB_def mapGet_def)

text \<open>
  Claim C10. Let a pass run to its end, and let \<open>jobID\<close> be in the set the loop of line 206
  ranges over. If the fetch of the queue's attributes fails (and gives the nil map), or the
  attribute \<^verbatim>\<open>CreatedTimestamp\<close> is absent, or \<^verbatim>\<open>ParseInt64\<close> rejects it, the creation
  time is the zero time, and the pass deletes the runtime resources of the queue's job
  key. \<^verbatim>\<open>ParseInt64\<close> is a parameter that rejects the empty string, which is what a missing
  key of a Go map reads as; the clock is later than 30 seconds into the year 1.
\<close>

theorem C10_unreadable_timestamp_is_deleted:
  assumes "ext_ListAllInProgressJobKeys env = Inr inProgressJobKeys"
    and "ext_listQueueURLsForAllAPIs env = Inr queues"
    and "ext_ListJobs env = Inr jobs"
    and "v = gatherViews env inProgressJobKeys queues jobs"
    and "jobID \<in> set (strset_Difference (queueJobIDSet v) [k8sJobIDSet v, inProgressJobIDSet v])"
    and "url = mapGet (queueURLMap v) jobID"
    and "ext_GetAllQueueAttributes env url = (attributes, err)"
    and "ext_ParseInt64 env [] = None"
    and "(err \<noteq> None \<and> attributes = Map.empty)
         \<or> attributes ''CreatedTimestamp'' = None
         \<or> ext_ParseInt64 env (mapGet attributes ''CreatedTimestamp'') = None"
    and "zeroTime + doesQueueExistGracePeriod < ext_now env"
    and "ManageJobResources env w = (Returns None, w')"
  shows "queueCreatedTimestamp env attributes = zeroTime
       \<and> RuntimeDelete (ext_jobKeyFromQueueURL env url) \<in> set (newEvents w w')"
proof -
  from assms(8,9) have "ext_ParseInt64 env (mapGet attributes ''CreatedTimestamp'') = None"
    by (auto simp: mapGet_def)
  then have ts: "queueCreatedTimestamp env attributes = zeroTime"
    by (simp add: queueCreatedTimestamp_def)
  from assms(10) have "\<not> time_Sub (ext_now env) zeroTime \<le> doesQueueExistGracePeriod"
    by (simp add: time_Sub_le grace_bounds)
  with ts assms(6,7) have "\<not> time_Sub (ext_now env)
                 (queueCreatedTimestamp env (fst (ext_GetAllQueueAttributes env (mapGet (queueURLMap v) jobID))))
               \<le> doesQueueExistGracePeriod" by simp
  from orphanQueue_deleted_in_pass [OF assms(1-5) this assms(11)] ts assms(6) show ?thesis by simp
qed

text \<open>An orphan queue whose attributes cannot be fetched is deleted in the pass.\<close>

theorem C10_unreadable_timestamp_is_deleted_witness:
  "queueCreatedTimestamp envUnreadableQueue Map.empty = zeroTime
   \<and> RuntimeDelete jobA \<in> set (newEvents emptyWorld (snd (ManageJobResources envUnreadableQueue emptyWorld)))"
proof -
  have run: "ManageJobResources envUnreadableQueue emptyWorld
               = (Returns None, emptyWorld\<lparr>trace := [ErrorReport ''AccessDenied'', RuntimeDelete jobA]\<rparr>)"
    by (simp add: envUnreadableQueue_def envOrphanQueue_def evals effects samples)
  have "queueCreatedTimestamp envUnreadableQueue Map.empty = zeroTime
       \<and> RuntimeDelete (ext_jobKeyFromQueueURL envUnreadableQueue ''q-a'')
           \<in> set (newEvents emptyWorld (emptyWorld\<lparr>trace := [ErrorReport ''AccessDenied'', RuntimeDelete jobA]\<rparr>))"
    by (rule C10_unreadable_timestamp_is_deleted
          [where inProgressJobKeys = "[]" and queues = "[''q-a'']" and jobs = "[]"
             and v = "gatherViews envUnreadableQueue [] [''q-a''] []" and jobID = "''a''"
             and err = "Some ''AccessDenied''", OF _ _ _ _ _ _ _ _ _ _ run])
       (simp_all add: envUnreadableQueue_def envOrphanQueue_def sampleEnv_def gatherViews_def
          inProgressLoop_def strset_Difference_def strset_Has_def strset_Add_def mapGet_def
          zeroTime_def doesQueueExistGracePeriod_def time_Second_def sampleNow_def)
  with run show ?thesis
    by (simp add: envUnreadableQueue_def envOrphanQueue_def sampleEnv_def jobA_def)
qed

end
